theory Spec2Isabelle
  imports Main
begin

section \<open>JavaScript strings\<close>

text \<open>
  A JavaScript string is a sequence of UTF-16 code units. The model is \<open>string\<close>, a list
  of \<open>char\<close>, each \<open>char\<close> standing for the code unit of the same number (0 to 255: the
  Basic Latin and Latin-1 Supplement blocks). On these code units the built-in operations
  the repository calls are modelled as ECMAScript defines them:
  \<^item> \<open>\s\<close> in a regular expression and the characters \<open>trim\<close> strips are the same set,
    WhiteSpace and LineTerminator: below 256 these are the code units 9 to 13, 32 and 160;
  \<^item> \<open>\d\<close> is \<open>0\<close> to \<open>9\<close> only;
  \<^item> \<open>toLowerCase\<close> maps \<open>A\<close> to \<open>Z\<close> and the capital letters of Latin-1 (192 to 222
    except the multiplication sign 215) to the code unit 32 higher, and nothing else.
  Strings with a code unit from 256 on are outside the model.
\<close>

definition code :: "char \<Rightarrow> nat" where
  "code c = of_char c"

definition isWhiteSpace :: "char \<Rightarrow> bool" where
  "isWhiteSpace c = ((9 \<le> code c \<and> code c \<le> 13) \<or> code c = 32 \<or> code c = 160)"

definition isDigit :: "char \<Rightarrow> bool" where
  "isDigit c = (48 \<le> code c \<and> code c \<le> 57)"

definition isLowerAZ :: "char \<Rightarrow> bool" where
  "isLowerAZ c = (97 \<le> code c \<and> code c \<le> 122)"

definition isHyphen :: "char \<Rightarrow> bool" where
  "isHyphen c = (c = CHR ''-'')"

definition toLowerCaseChar :: "char \<Rightarrow> char" where
  "toLowerCaseChar c =
     (if (65 \<le> code c \<and> code c \<le> 90) \<or> (192 \<le> code c \<and> code c \<le> 222 \<and> code c \<noteq> 215)
      then char_of (code c + 32) else c)"

definition toLowerCase :: "string \<Rightarrow> string" where
  "toLowerCase s = map toLowerCaseChar s"

definition trim :: "string \<Rightarrow> string" where
  "trim s = rev (dropWhile isWhiteSpace (rev (dropWhile isWhiteSpace s)))"

text \<open>
  \<open>s.replace(/X+/g, r)\<close> for a character class \<open>X\<close>: scanning from the left, every maximal
  run of characters of the class is replaced by \<open>r\<close>.
\<close>

function replaceRuns :: "(char \<Rightarrow> bool) \<Rightarrow> string \<Rightarrow> string \<Rightarrow> string" where
  "replaceRuns P r [] = []"
| "replaceRuns P r (c # cs) =
     (if P c then r @ replaceRuns P r (dropWhile P cs) else c # replaceRuns P r cs)"
  by pat_completeness auto
termination
  by (relation "measure (\<lambda>(P, r, s). length s)")
     (auto simp: less_Suc_eq_le length_dropWhile_le)

section \<open>Slug derivation\<close>

text \<open>The character class \<open>[a-z0-9\s-]\<close>, whose complement \<open>toSlug\<close> deletes.\<close>

definition slugKeep :: "char \<Rightarrow> bool" where
  "slugKeep c = (isLowerAZ c \<or> isDigit c \<or> isWhiteSpace c \<or> isHyphen c)"

text \<open>
  \<^verbatim>\<open>value.toLowerCase().trim().replace(/[^a-z0-9\s-]/g, '')
       .replace(/\s+/g, '-').replace(/-+/g, '-')\<close>
\<close>

definition toSlug :: "string \<Rightarrow> string" where
  "toSlug v =
     replaceRuns isHyphen ''-''
       (replaceRuns isWhiteSpace ''-''
         (filter slugKeep (trim (toLowerCase v))))"

section \<open>Errors\<close>

text \<open>
  Every failure in the repository is \<^verbatim>\<open>throw new Error(message)\<close>; the model returns the
  error as the left summand of the result, with the message as the source spells it.
  \<open>TypeError\<close> stands for the engine's own exception on a property access on
  \<^verbatim>\<open>undefined\<close>.
\<close>

datatype error = Error string | TypeError

section \<open>Time normalization\<close>

text \<open>
  The numbers of the repository are non-negative integers well inside the range in which
  a JavaScript number is exact; they are modelled as \<open>int\<close>.
\<close>

definition digitValue :: "char \<Rightarrow> int" where
  "digitValue c = int (code c) - 48"

text \<open>\<^verbatim>\<open>Number(h)\<close> for a string \<open>h\<close> of decimal digits.\<close>

definition toNumber :: "string \<Rightarrow> int" where
  "toNumber h = foldl (\<lambda>n c. 10 * n + digitValue c) 0 h"

definition digitChar :: "int \<Rightarrow> char" where
  "digitChar d = char_of (48 + d)"

text \<open>The decimal digits of a non-negative integer, most significant first.\<close>

function digits :: "int \<Rightarrow> string" where
  "digits n = (if n < 10 then [digitChar n] else digits (n div 10) @ [digitChar (n mod 10)])"
  by pat_completeness auto
termination
  by (relation "measure nat") auto

declare digits.simps [simp del]

text \<open>\<^verbatim>\<open>n.toString()\<close> for an integer \<open>n\<close>.\<close>

definition toString :: "int \<Rightarrow> string" where
  "toString n = (if n < 0 then ''-'' @ digits (- n) else digits n)"

text \<open>\<^verbatim>\<open>s.padStart(n, c)\<close> for a single character \<open>c\<close>.\<close>

definition padStart :: "nat \<Rightarrow> char \<Rightarrow> string \<Rightarrow> string" where
  "padStart n c s = replicate (n - length s) c @ s"

text \<open>
  The tail \<^verbatim>\<open>\s*(am|pm)$\<close> of the twelve-hour pattern, under the flag \<open>i\<close>: all leading
  white space is skipped (the meridiem starts with a letter), and what is left must be
  \<open>am\<close> or \<open>pm\<close> in either case. The result is the text of the third capture group.
\<close>

definition matchMeridiem :: "string \<Rightarrow> string option" where
  "matchMeridiem s =
     (let r = dropWhile isWhiteSpace s in
      if toLowerCase r = ''am'' \<or> toLowerCase r = ''pm'' then Some r else None)"

text \<open>
  \<^verbatim>\<open>/^(\d{1,2}):(\d{2})\s*(am|pm)$/i\<close>: the capture groups of a match, or \<open>None\<close>.
  The hour group is the whole run of leading digits, which must be one or two long since
  a colon has to follow it.
\<close>

definition twelveHour :: "string \<Rightarrow> (string \<times> string \<times> string) option" where
  "twelveHour s =
     (let h = takeWhile isDigit s in
      if length h = 1 \<or> length h = 2 then
        (case drop (length h) s of
           c # m1 # m2 # rest \<Rightarrow>
             if c = CHR '':'' \<and> isDigit m1 \<and> isDigit m2 then
               (case matchMeridiem rest of
                  Some mer \<Rightarrow> Some (h, [m1, m2], mer)
                | None \<Rightarrow> None)
             else None
         | _ \<Rightarrow> None)
      else None)"

text \<open>The classes \<open>[01]\<close>, \<open>[0-3]\<close> and \<open>[0-5]\<close> of the twenty-four-hour pattern.\<close>

definition is01 :: "char \<Rightarrow> bool" where
  "is01 c = (c = CHR ''0'' \<or> c = CHR ''1'')"

definition is03 :: "char \<Rightarrow> bool" where
  "is03 c = (48 \<le> code c \<and> code c \<le> 51)"

definition is05 :: "char \<Rightarrow> bool" where
  "is05 c = (48 \<le> code c \<and> code c \<le> 53)"

text \<open>
  \<^verbatim>\<open>/^([01]?\d|2[0-3]):([0-5]\d)$/\<close>: the capture groups of a match, or \<open>None\<close>. A match
  is four characters long (a one-digit hour) or five (\<open>[01]\d\<close> or \<open>2[0-3]\<close>).
\<close>

fun twentyFourHour :: "string \<Rightarrow> (string \<times> string) option" where
  "twentyFourHour [h1, c, m1, m2] =
     (if isDigit h1 \<and> c = CHR '':'' \<and> is05 m1 \<and> isDigit m2
      then Some ([h1], [m1, m2]) else None)"
| "twentyFourHour [h1, h2, c, m1, m2] =
     (if ((is01 h1 \<and> isDigit h2) \<or> (h1 = CHR ''2'' \<and> is03 h2))
         \<and> c = CHR '':'' \<and> is05 m1 \<and> isDigit m2
      then Some ([h1, h2], [m1, m2]) else None)"
| "twentyFourHour _ = None"

definition normalizeTime :: "string \<Rightarrow> error + string" where
  "normalizeTime v =
     (let trimmed = toLowerCase (trim v) in
      case twelveHour trimmed of
        Some (h, m, meridiemRaw) \<Rightarrow>
          let hourNum = toNumber h;
              minutes = m;
              meridiem = toLowerCase meridiemRaw;
              normalizedHour =
                (if meridiem = ''pm'' \<and> hourNum \<noteq> 12 then hourNum + 12
                 else if meridiem = ''am'' \<and> hourNum = 12 then 0
                 else hourNum)
          in Inr (padStart 2 CHR ''0'' (toString normalizedHour) @ '':'' @ minutes)
      | None \<Rightarrow>
          (case twentyFourHour trimmed of
             Some (h, m) \<Rightarrow> Inr (padStart 2 CHR ''0'' h @ '':'' @ m)
           | None \<Rightarrow> Inl (Error ''Invalid time format. Use HH:MM or HH:MM AM/PM.'')))"

section \<open>Date normalization\<close>

text \<open>
  \<^verbatim>\<open>new Date(value)\<close> parses with the host's \<^verbatim>\<open>Date.parse\<close>, which ECMAScript leaves to
  the implementation for every string outside its own date-time format, and which reads a
  string without an offset in the host's local time zone. The parser is therefore a
  parameter of the model: it gives the time value of the parsed date in milliseconds
  since 1970-01-01T00:00:00Z, or \<open>None\<close> where \<^verbatim>\<open>getTime()\<close> is \<open>NaN\<close>.
\<close>

type_synonym dateParser = "string \<Rightarrow> int option"

text \<open>
  The calendar date (year, month, day) in UTC of a time value, as \<^verbatim>\<open>toISOString\<close> prints
  it: the day number is the floor of the time value over 86400000, and the civil date
  of a day number follows the 400-year cycle of the proleptic Gregorian calendar,
  counted from the first of March of year 0.
\<close>

definition civilFromDays :: "int \<Rightarrow> int \<times> int \<times> int" where
  "civilFromDays z0 =
     (let z = z0 + 719468;
          era = z div 146097;
          doe = z - era * 146097;
          yoe = (doe - doe div 1460 + doe div 36524 - doe div 146096) div 365;
          y = yoe + era * 400;
          doy = doe - (365 * yoe + yoe div 4 - yoe div 100);
          mp = (5 * doy + 2) div 153;
          d = doy - (153 * mp + 2) div 5 + 1;
          m = (if mp < 10 then mp + 3 else mp - 9)
      in (if m \<le> 2 then y + 1 else y, m, d))"

text \<open>
  The year of an ISO string: four digits from 0 to 9999, and otherwise a sign and six
  digits.
\<close>

definition isoYear :: "int \<Rightarrow> string" where
  "isoYear y =
     (if 0 \<le> y \<and> y \<le> 9999 then padStart 4 CHR ''0'' (toString y)
      else (if y < 0 then ''-'' else ''+'') @ padStart 6 CHR ''0'' (toString \<bar>y\<bar>))"

text \<open>\<^verbatim>\<open>parsed.toISOString().split('T')[0]\<close> for the time value \<open>t\<close> of \<open>parsed\<close>.\<close>

definition isoDatePortion :: "int \<Rightarrow> string" where
  "isoDatePortion t =
     (case civilFromDays (t div 86400000) of
        (y, m, d) \<Rightarrow>
          isoYear y @ ''-'' @ padStart 2 CHR ''0'' (toString m)
            @ ''-'' @ padStart 2 CHR ''0'' (toString d))"

definition normalizeDate :: "dateParser \<Rightarrow> string \<Rightarrow> error + string" where
  "normalizeDate parse v =
     (case parse v of
        None \<Rightarrow> Inl (Error ''Invalid date format.'')
      | Some t \<Rightarrow> Inr (isoDatePortion t))"

section \<open>The Event document and its pre-save hook\<close>

text \<open>
  The eleven required string paths of \<open>EventFields\<close>. A document holds for each of them a
  string, or a value that is not a string (\<open>None\<close>: \<^verbatim>\<open>undefined\<close>, \<^verbatim>\<open>null\<close>, a number,
  ...); the hook reads and writes them by name, \<^verbatim>\<open>this[field]\<close>.
\<close>

datatype field =
  title | description | overview | image | venue | location | date | time | mode
  | audience | organizer

fun fieldName :: "field \<Rightarrow> string" where
  "fieldName title = ''title''"
| "fieldName description = ''description''"
| "fieldName overview = ''overview''"
| "fieldName image = ''image''"
| "fieldName venue = ''venue''"
| "fieldName location = ''location''"
| "fieldName date = ''date''"
| "fieldName time = ''time''"
| "fieldName mode = ''mode''"
| "fieldName audience = ''audience''"
| "fieldName organizer = ''organizer''"

text \<open>
  \<open>slug\<close> is \<open>None\<close> when the path is \<^verbatim>\<open>undefined\<close>. \<open>agenda\<close> and \<open>tags\<close> are \<open>None\<close> when
  \<^verbatim>\<open>null\<close> or \<^verbatim>\<open>undefined\<close>, and otherwise arrays whose entries are strings or not
  (\<open>None\<close>). \<open>isModifiedFn\<close> is the document's \<^verbatim>\<open>isModified\<close> method as it answers when
  the hook calls it, \<open>None\<close> when the property is not a function.
\<close>

record EventDocument =
  strs :: "field \<Rightarrow> string option"
  slug :: "string option"
  agenda :: "string option list option"
  tags :: "string option list option"
  isModifiedFn :: "(string \<Rightarrow> bool) option"

definition stringFields :: "field list" where
  "stringFields =
     [title, description, overview, image, venue, location, date, time, mode, audience,
      organizer]"

text \<open>The loop over \<open>stringFields\<close>, from the field list that is still to be checked.\<close>

fun checkStringFields :: "field list \<Rightarrow> EventDocument \<Rightarrow> error + EventDocument" where
  "checkStringFields [] doc = Inr doc"
| "checkStringFields (f # fs) doc =
     (case strs doc f of
        None \<Rightarrow> Inl (Error (fieldName f @ '' is required and must be a non-empty string.''))
      | Some v \<Rightarrow>
          if length (trim v) = 0
          then Inl (Error (fieldName f @ '' is required and must be a non-empty string.''))
          else checkStringFields fs (doc\<lparr>strs := (strs doc)(f \<mapsto> trim v)\<rparr>))"

text \<open>
  The callback of \<^verbatim>\<open>.map\<close> over the entries of \<open>agenda\<close> (or \<open>tags\<close>, with that name in
  the message): the first entry that is not a string throws.
\<close>

fun trimItems :: "string \<Rightarrow> string option list \<Rightarrow> error + string list" where
  "trimItems name [] = Inr []"
| "trimItems name (item # items) =
     (case item of
        None \<Rightarrow> Inl (Error (name @ '' must contain strings.''))
      | Some s \<Rightarrow>
          (case trimItems name items of
             Inl e \<Rightarrow> Inl e
           | Inr r \<Rightarrow> Inr (trim s # r)))"

text \<open>
  The block the hook runs once for \<open>agenda\<close> and once for \<open>tags\<close>:
  \<^verbatim>\<open>(this.agenda ?? []).map(...).filter((item) => item.length > 0)\<close>, then the test
  that the result is not empty.
\<close>

definition normalizeList :: "string \<Rightarrow> string option list option \<Rightarrow> error + string list" where
  "normalizeList name xs =
     (case trimItems name (case xs of None \<Rightarrow> [] | Some l \<Rightarrow> l) of
        Inl e \<Rightarrow> Inl e
      | Inr mapped \<Rightarrow>
          (let kept = filter (\<lambda>item. length item > 0) mapped in
           if length kept = 0
           then Inl (Error (name @ '' is required and must be a non-empty array.''))
           else Inr kept))"

text \<open>
  \<^verbatim>\<open>typeof this.isModified === 'function' ? this.isModified('title') : true\<close>
\<close>

definition titleChanged :: "EventDocument \<Rightarrow> bool" where
  "titleChanged doc = (case isModifiedFn doc of Some f \<Rightarrow> f ''title'' | None \<Rightarrow> True)"

text \<open>\<^verbatim>\<open>!this.slug\<close>: the slug is \<^verbatim>\<open>undefined\<close> or the empty string.\<close>

definition slugFalsy :: "string option \<Rightarrow> bool" where
  "slugFalsy s = (case s of None \<Rightarrow> True | Some v \<Rightarrow> v = [])"

text \<open>
  The pre-save hook of the Event schema. After the loop every string path holds a string;
  the \<open>None\<close> branches below are what the engine would do on \<^verbatim>\<open>undefined\<close>.
\<close>

definition handleNormalize :: "dateParser \<Rightarrow> EventDocument \<Rightarrow> error + EventDocument" where
  "handleNormalize parse doc0 =
     (case checkStringFields stringFields doc0 of
        Inl e \<Rightarrow> Inl e
      | Inr doc1 \<Rightarrow>
     (case normalizeList ''agenda'' (agenda doc1) of
        Inl e \<Rightarrow> Inl e
      | Inr agenda' \<Rightarrow>
     (case normalizeList ''tags'' (tags doc1) of
        Inl e \<Rightarrow> Inl e
      | Inr tags' \<Rightarrow>
     (case strs doc1 date of
        None \<Rightarrow> Inl (Error ''Invalid date format.'')
      | Some d \<Rightarrow>
     (case normalizeDate parse d of
        Inl e \<Rightarrow> Inl e
      | Inr date' \<Rightarrow>
     (case strs doc1 time of
        None \<Rightarrow> Inl TypeError
      | Some t \<Rightarrow>
     (case normalizeTime t of
        Inl e \<Rightarrow> Inl e
      | Inr time' \<Rightarrow>
     (let doc2 = doc1\<lparr>agenda := Some (map Some agenda'), tags := Some (map Some tags'),
                       strs := (strs doc1)(date \<mapsto> date', time \<mapsto> time')\<rparr>;
          changed = titleChanged doc2
      in if slugFalsy (slug doc2) \<or> changed
         then (case strs doc2 title of
                 None \<Rightarrow> Inl TypeError
               | Some ttl \<Rightarrow> Inr (doc2\<lparr>slug := Some (toSlug ttl)\<rparr>))
         else Inr doc2))))))))"

section \<open>The Booking document and its pre-save hook\<close>

text \<open>The class \<open>[^\s@]\<close>.\<close>

definition notSpaceAt :: "char \<Rightarrow> bool" where
  "notSpaceAt c = (\<not> isWhiteSpace c \<and> c \<noteq> CHR ''@'')"

text \<open>
  \<^verbatim>\<open>/^[^\s@]+@[^\s@]+\.[^\s@]+$/.test(value)\<close>. The first group is the whole run of leading
  characters of the class, which must be followed by the \<open>@\<close>; what follows the \<open>@\<close> runs
  to the end in the class and holds a dot with a character before it and one after it.
\<close>

definition isValidEmail :: "string \<Rightarrow> bool" where
  "isValidEmail v =
     (let local = takeWhile notSpaceAt v in
      local \<noteq> [] \<and>
      (case dropWhile notSpaceAt v of
         [] \<Rightarrow> False
       | c # domain \<Rightarrow>
           c = CHR ''@'' \<and> list_all notSpaceAt domain
           \<and> CHR ''.'' \<in> set (butlast (tl domain))))"

text \<open>
  A Booking document: \<open>email\<close> is \<open>None\<close> when it is not a string; \<open>isNew\<close> and
  \<open>isModified\<close> are the document's own. The identifier type, \<^verbatim>\<open>Types.ObjectId.isValid\<close>
  and the query \<^verbatim>\<open>Event.exists({ _id })\<close> belong to the object-document mapper and the
  store; they are parameters.
\<close>

record 'id BookingDocument =
  eventId :: 'id
  email :: "string option"
  isNew :: bool
  isModified :: "string \<Rightarrow> bool"

text \<open>
  The hook returns nothing: the result is the error thrown or \<open>()\<close>. The second component
  lists the identifiers looked up with \<^verbatim>\<open>Event.exists\<close>, in order.
\<close>

definition validateBooking ::
  "('id \<Rightarrow> bool) \<Rightarrow> ('id \<Rightarrow> bool) \<Rightarrow> 'id BookingDocument \<Rightarrow> (error + unit) \<times> 'id list" where
  "validateBooking isValidObjectId eventExists doc =
     (case email doc of
        None \<Rightarrow> (Inl (Error ''email is required and must be a non-empty string.''), [])
      | Some e \<Rightarrow>
          if length (trim e) = 0
          then (Inl (Error ''email is required and must be a non-empty string.''), [])
          else if \<not> isValidEmail e then (Inl (Error ''Invalid email format.''), [])
          else if \<not> isValidObjectId (eventId doc)
          then (Inl (Error ''eventId must be a valid ObjectId.''), [])
          else if isNew doc \<or> isModified doc ''eventId''
          then (if \<not> eventExists (eventId doc)
                then (Inl (Error ''Referenced event does not exist.''), [eventId doc])
                else (Inr (), [eventId doc]))
          else (Inr (), []))"



text \<open>
  The validators the mapper derives from the schema (\<^verbatim>\<open>required\<close>, \<^verbatim>\<open>maxlength\<close>) run before
  the hook and are not part of the model: the statements below are about the hook.
\<close>

section \<open>The connection cache\<close>

text \<open>
  The cache holds the live connection and the promise of the establishment in flight.
  \<open>connectToDatabase\<close> is modelled up to its first \<^verbatim>\<open>await\<close>: it throws, returns a
  connection, or awaits a promise; the second component is the cache it leaves.
  \<open>uri\<close> is \<^verbatim>\<open>process.env.MONGODB_URI\<close> (\<open>None\<close> when unset), and \<open>connect\<close> stands for
  \<^verbatim>\<open>mongoose.connect(uri, options).then(...).catch(...)\<close>.
\<close>

record ('c, 'p) MongooseCache =
  conn :: "'c option"
  promise :: "'p option"

datatype ('c, 'p) outcome = Throws error | Returns 'c | Awaits 'p

definition uriFalsy :: "string option \<Rightarrow> bool" where
  "uriFalsy u = (case u of None \<Rightarrow> True | Some v \<Rightarrow> v = [])"

definition connectToDatabase ::
  "string option \<Rightarrow> (string \<Rightarrow> 'p) \<Rightarrow> ('c, 'p) MongooseCache
     \<Rightarrow> ('c, 'p) outcome \<times> ('c, 'p) MongooseCache" where
  "connectToDatabase uri connect cached =
     (if uriFalsy uri
      then (Throws (Error ''MONGODB_URI environment variable is not set.''), cached)
      else (case conn cached of
              Some c \<Rightarrow> (Returns c, cached)
            | None \<Rightarrow>
                (case promise cached of
                   None \<Rightarrow>
                     (let p = connect (case uri of Some v \<Rightarrow> v | None \<Rightarrow> [])
                      in (Awaits p, cached\<lparr>promise := Some p\<rparr>))
                 | Some p \<Rightarrow> (Awaits p, cached))))"

section \<open>Predicates of the statements\<close>

text \<open>The characters a slug is made of: \<open>a\<close> to \<open>z\<close>, \<open>0\<close> to \<open>9\<close> and the hyphen.\<close>

definition isSlugChar :: "char \<Rightarrow> bool" where
  "isSlugChar c = (isLowerAZ c \<or> isDigit c \<or> isHyphen c)"

text \<open>Two neighbouring characters of the class \<open>P\<close>.\<close>

fun hasRun :: "(char \<Rightarrow> bool) \<Rightarrow> string \<Rightarrow> bool" where
  "hasRun P (a # b # cs) = ((P a \<and> P b) \<or> hasRun P (b # cs))"
| "hasRun P _ = False"

text \<open>
  Slug derivation in the words of the specification, to compare with \<open>toSlug\<close>:
  lowercase, strip the characters outside \<open>[a-z0-9\s-]\<close>, collapse every run of white
  space to one hyphen, collapse every run of hyphens to one.
\<close>

definition toSlugSpec :: "string \<Rightarrow> string" where
  "toSlugSpec t =
     replaceRuns isHyphen ''-''
       (replaceRuns isWhiteSpace ''-'' (filter slugKeep (toLowerCase t)))"

text \<open>A time of day \<open>HH:MM\<close>: two digits, a colon, two digits.\<close>

fun isHHMM :: "string \<Rightarrow> bool" where
  "isHHMM [h1, h2, c, m1, m2] =
     (isDigit h1 \<and> isDigit h2 \<and> c = CHR '':'' \<and> isDigit m1 \<and> isDigit m2)"
| "isHHMM _ = False"

text \<open>A canonical 24-hour time: \<open>HH:MM\<close> with the hour from 00 to 23 and the minutes from 00 to 59.\<close>

definition isCanonicalTime :: "string \<Rightarrow> bool" where
  "isCanonicalTime s =
     (isHHMM s \<and> toNumber (take 2 s) \<le> 23 \<and> toNumber (drop 3 s) \<le> 59)"

text \<open>
  The unique index on \<open>slug\<close>, declared by \<^verbatim>\<open>EventSchema.index({ slug: 1 }, { unique: true })\<close>
  and enforced by the store: a document whose slug equals the slug of a stored document is
  refused.
\<close>

definition uniqueSlugViolation :: "EventDocument list \<Rightarrow> EventDocument \<Rightarrow> bool" where
  "uniqueSlugViolation stored doc = (slug doc \<in> set (map slug stored))"

text \<open>
  The shape of an email address in the words of the specification: \<open>local@domain\<close>, where
  the local part has no white space and no \<open>@\<close>, and the domain part has no white space
  and contains a dot. The local part ends at the first \<open>@\<close>.
\<close>

definition emailShape :: "string \<Rightarrow> bool" where
  "emailShape v =
     (let local = takeWhile (\<lambda>c. c \<noteq> CHR ''@'') v;
          rest = dropWhile (\<lambda>c. c \<noteq> CHR ''@'') v
      in local \<noteq> [] \<and> rest \<noteq> [] \<and> list_all (\<lambda>c. \<not> isWhiteSpace c) local
         \<and> list_all (\<lambda>c. \<not> isWhiteSpace c) (tl rest) \<and> CHR ''.'' \<in> set (tl rest))"

text \<open>The loop over the string paths did not throw.\<close>

definition stringFieldsOk :: "EventDocument \<Rightarrow> bool" where
  "stringFieldsOk doc =
     (case checkStringFields stringFields doc of Inl e \<Rightarrow> False | Inr d \<Rightarrow> True)"

text \<open>
  List normalization in the words of the specification: every entry in its trimmed form,
  the entries that became empty dropped.
\<close>

definition trimAndDrop :: "string list \<Rightarrow> string list" where
  "trimAndDrop ss = filter (\<lambda>s. s \<noteq> []) (map trim ss)"

text \<open>The entries of a list that are strings.\<close>

fun strings :: "string option list \<Rightarrow> string list" where
  "strings [] = []"
| "strings (None # items) = strings items"
| "strings (Some s # items) = s # strings items"

text \<open>
  A list that the specification has rejected: it is absent, or an entry is not a string,
  or no entry is left once every entry is trimmed and the empty ones are dropped.
\<close>

definition listRejected :: "string option list option \<Rightarrow> bool" where
  "listRejected xs =
     (case xs of
        None \<Rightarrow> True
      | Some items \<Rightarrow> None \<in> set items \<or> trimAndDrop (strings items) = [])"

text \<open>
  The checks of the Booking hook that stand before the lookup have passed: the email is a
  string, not empty after trimming, that matches the pattern, and the identifier is valid.
\<close>

definition checksPassed :: "('id \<Rightarrow> bool) \<Rightarrow> 'id BookingDocument \<Rightarrow> bool" where
  "checksPassed isValidObjectId doc =
     (case email doc of
        None \<Rightarrow> False
      | Some e \<Rightarrow> trim e \<noteq> [] \<and> isValidEmail e \<and> isValidObjectId (eventId doc))"

section \<open>Sample inputs\<close>

text \<open>
  A host parser that knows two strings of ECMAScript's own date-time format, which every
  host reads alike: the date-only form \<open>2024-03-05\<close> is midnight UTC of that day, and
  \<open>2024-03-05T23:30:00-05:00\<close>, half past eleven in the evening five hours west of UTC,
  is 04:30 UTC of the next day.
\<close>

definition sampleParser :: dateParser where
  "sampleParser s =
     (if s = ''2024-03-05'' then Some 1709596800000
      else if s = ''2024-03-05T23:30:00-05:00'' then Some 1709699400000
      else None)"

text \<open>A new Event document with the given title, as it reaches the hook.\<close>

definition sampleEvent :: "string \<Rightarrow> EventDocument" where
  "sampleEvent t =
     \<lparr>strs = (\<lambda>f. Some ''Tampere'')(title \<mapsto> t, date \<mapsto> ''2024-03-05'', time \<mapsto> ''9:30 AM''),
      slug = None,
      agenda = Some [Some '' Doors open '', Some ''   '', Some ''Talks''],
      tags = Some [Some ''node'', Some '' js ''],
      isModifiedFn = Some (\<lambda>p. True)\<rparr>"

text \<open>A stored Booking document that is saved again with no path modified.\<close>

definition sampleBooking :: "nat BookingDocument" where
  "sampleBooking =
     \<lparr>eventId = 7, email = Some ''ada@example.org'', isNew = False, isModified = (\<lambda>p. False)\<rparr>"

section \<open>Strings: white space, lower case, runs\<close>

lemma code_hyphen: "code CHR ''-'' = 45"
  by (simp add: code_def)

lemma lower_ws: "isWhiteSpace (toLowerCaseChar c) = isWhiteSpace c"
  by (auto simp: toLowerCaseChar_def isWhiteSpace_def code_def)

lemma dropWhile_lower:
  "dropWhile isWhiteSpace (toLowerCase s) = toLowerCase (dropWhile isWhiteSpace s)"
  by (induction s) (auto simp: toLowerCase_def lower_ws)

lemma rev_lower: "rev (toLowerCase s) = toLowerCase (rev s)"
  by (simp add: toLowerCase_def rev_map)

lemma trim_lower: "trim (toLowerCase s) = toLowerCase (trim s)"
  by (simp add: trim_def dropWhile_lower rev_lower)

lemma dropWhile_idem: "dropWhile P (dropWhile P s) = dropWhile P s"
  by (induction s) auto

lemma dropWhile_fix: "xs = [] \<or> \<not> P (hd xs) \<Longrightarrow> dropWhile P xs = xs"
  by (cases xs) auto

lemma dropWhile_none: "list_all (\<lambda>c. \<not> P c) s \<Longrightarrow> dropWhile P s = s"
  by (cases s) auto

lemma rev_split: "rev (dropWhile P xs) @ rev (takeWhile P xs) = rev xs"
  by (metis rev_append takeWhile_dropWhile_id)

lemma trim_head: "trim s = [] \<or> \<not> isWhiteSpace (hd (trim s))"
proof (cases "trim s = []")
  case True
  then show ?thesis by simp
next
  case False
  let ?a = "dropWhile isWhiteSpace s"
  have a: "?a = trim s @ rev (takeWhile isWhiteSpace (rev ?a))"
    using rev_split [of isWhiteSpace "rev ?a"] by (simp add: trim_def)
  with False have "hd ?a = hd (trim s)"
    by (metis hd_append2)
  moreover have "?a \<noteq> []"
    using a False by (metis append_is_Nil_conv)
  then have "\<not> isWhiteSpace (hd ?a)"
    by (rule hd_dropWhile)
  ultimately show ?thesis by simp
qed

lemma trim_last: "dropWhile isWhiteSpace (rev (trim s)) = rev (trim s)"
  by (simp add: trim_def dropWhile_idem)

lemma trim_trim: "trim (trim s) = trim s"
proof -
  have "dropWhile isWhiteSpace (trim s) = trim s"
    using trim_head by (rule dropWhile_fix)
  then have "trim (trim s) = rev (dropWhile isWhiteSpace (rev (trim s)))"
    by (simp add: trim_def [of "trim s"])
  then show ?thesis by (simp add: trim_last)
qed

lemma trim_none: "list_all (\<lambda>c. \<not> isWhiteSpace c) s \<Longrightarrow> trim s = s"
  by (simp add: trim_def dropWhile_none)

lemma replaceRuns_none: "list_all (\<lambda>c. \<not> P c) s \<Longrightarrow> replaceRuns P r s = s"
  by (induction s) auto

lemma replaceRuns_norun:
  "\<not> hasRun P s \<Longrightarrow> list_all (\<lambda>c. P c \<longrightarrow> r = [c]) s \<Longrightarrow> replaceRuns P r s = s"
proof (induction s)
  case Nil
  then show ?case by simp
next
  case (Cons c cs)
  show ?case
  proof (cases cs)
    case Nil
    with Cons.prems show ?thesis by auto
  next
    case (Cons d ds)
    with Cons.prems Cons.IH show ?thesis by auto
  qed
qed

lemma replaceRuns_all:
  "list_all Q s \<Longrightarrow> list_all Q r \<Longrightarrow> list_all Q (replaceRuns P r s)"
proof (induction P r s rule: replaceRuns.induct)
  case (1 P r)
  then show ?case by simp
next
  case (2 P r c cs)
  have "list_all Q (dropWhile P cs)"
    using 2(3) by (auto simp: list_all_iff dest: set_dropWhileD)
  with 2 show ?case by auto
qed

lemma replaceRuns_rest:
  "list_all Q (filter (\<lambda>c. \<not> P c) s) \<Longrightarrow> list_all Q r \<Longrightarrow> list_all Q (replaceRuns P r s)"
proof (induction P r s rule: replaceRuns.induct)
  case (1 P r)
  then show ?case by simp
next
  case (2 P r c cs)
  have "list_all Q (filter (\<lambda>c. \<not> P c) (dropWhile P cs))"
    using 2(3) by (auto simp: list_all_iff dest: set_dropWhileD)
  with 2 show ?case by auto
qed

lemma norun_replaceRuns: "P x \<Longrightarrow> \<not> hasRun P (replaceRuns P [x] s)"
proof (induction P "[x]" s rule: replaceRuns.induct)
  case (1 P)
  then show ?case by simp
next
  case (2 P c cs)
  show ?case
  proof (cases "P c")
    case True
    show ?thesis
    proof (cases "dropWhile P cs")
      case Nil
      with True have "replaceRuns P [x] (c # cs) = [x]"
        by (simp del: dropWhile_eq_Nil_conv)
      then show ?thesis by simp
    next
      case (Cons d ds)
      then have "\<not> P d"
        by (metis dropWhile_eq_Cons_conv)
      with 2 True Cons show ?thesis by auto
    qed
  next
    case False
    show ?thesis
    proof (cases cs)
      case Nil
      with False show ?thesis by simp
    next
      case (Cons d ds)
      with 2 False show ?thesis by (cases "P d") auto
    qed
  qed
qed

lemma takeWhile_all: "list_all P xs \<Longrightarrow> \<not> P y \<Longrightarrow> takeWhile P (xs @ y # ys) = xs"
  by (induction xs) auto

lemma dropWhile_all: "list_all P xs \<Longrightarrow> \<not> P y \<Longrightarrow> dropWhile P (xs @ y # ys) = y # ys"
  by (induction xs) auto

lemma dropWhile_prefix:
  "list_all P w \<Longrightarrow> ys = [] \<or> \<not> P (hd ys) \<Longrightarrow> dropWhile P (w @ ys) = ys"
  by (induction w) (auto simp: dropWhile_fix)

section \<open>Slugs\<close>

lemma slugChar_lower: "isSlugChar c \<Longrightarrow> toLowerCaseChar c = c"
  by (auto simp: isSlugChar_def toLowerCaseChar_def isLowerAZ_def isDigit_def isHyphen_def
      code_hyphen)

lemma slugChar_not_ws: "isSlugChar c \<Longrightarrow> \<not> isWhiteSpace c"
  by (auto simp: isSlugChar_def isWhiteSpace_def isLowerAZ_def isDigit_def isHyphen_def
      code_hyphen)

lemma slugChar_keep: "isSlugChar c \<Longrightarrow> slugKeep c"
  by (auto simp: isSlugChar_def slugKeep_def)

text \<open>A string of slug characters with no two hyphens in a row is its own slug.\<close>

lemma toSlug_fixed:
  assumes "list_all isSlugChar s" and "\<not> hasRun isHyphen s"
  shows "toSlug s = s"
proof -
  have nws: "list_all (\<lambda>c. \<not> isWhiteSpace c) s"
    using assms(1) by (auto simp: list_all_iff slugChar_not_ws)
  have "toLowerCase s = s"
    using assms(1) by (auto simp: toLowerCase_def list_all_iff slugChar_lower intro: map_idI)
  moreover have "trim s = s"
    using nws by (rule trim_none)
  moreover have "filter slugKeep s = s"
    using assms(1) by (auto simp: list_all_iff slugChar_keep)
  moreover have "replaceRuns isWhiteSpace ''-'' s = s"
    using nws by (rule replaceRuns_none)
  moreover have "replaceRuns isHyphen ''-'' s = s"
    using assms(2) by (rule replaceRuns_norun) (auto simp: list_all_iff isHyphen_def)
  ultimately show ?thesis by (simp add: toSlug_def)
qed

lemma toSlug_chars: "list_all isSlugChar (toSlug v)"
proof -
  have h: "list_all isSlugChar ''-''"
    by (simp add: isSlugChar_def isHyphen_def)
  have "list_all isSlugChar
          (filter (\<lambda>c. \<not> isWhiteSpace c) (filter slugKeep (trim (toLowerCase v))))"
    by (auto simp: list_all_iff slugKeep_def isSlugChar_def)
  then have "list_all isSlugChar
          (replaceRuns isWhiteSpace ''-'' (filter slugKeep (trim (toLowerCase v))))"
    using h by (rule replaceRuns_rest)
  then show ?thesis
    unfolding toSlug_def using h by (rule replaceRuns_all)
qed

lemma toSlug_norun: "\<not> hasRun isHyphen (toSlug v)"
  unfolding toSlug_def by (rule norun_replaceRuns) (simp add: isHyphen_def)

text \<open>On a trimmed title \<open>toSlug\<close> is the derivation the specification describes.\<close>

lemma toSlug_trimmed: "toSlug (trim t) = toSlugSpec (trim t)"
  by (simp add: toSlug_def toSlugSpec_def trim_lower trim_trim)

text \<open>
  C5. Slug derivation is idempotent: for every string \<open>x\<close>, the slug of the slug of \<open>x\<close> is
  the slug of \<open>x\<close>.
\<close>

theorem toSlug_idempotent: "toSlug (toSlug x) = toSlug x"
  by (rule toSlug_fixed [OF toSlug_chars toSlug_norun])

section \<open>Time normalization on the hours of a clock\<close>

lemma normalizeTime_rejects_iff:
  "normalizeTime v = Inl e \<longleftrightarrow>
     twelveHour (toLowerCase (trim v)) = None \<and> twentyFourHour (toLowerCase (trim v)) = None
     \<and> e = Error ''Invalid time format. Use HH:MM or HH:MM AM/PM.''"
  by (auto simp: normalizeTime_def Let_def split: option.splits prod.splits)

lemma digitValue_digit: "isDigit c \<Longrightarrow> 0 \<le> digitValue c \<and> digitValue c \<le> 9"
  by (auto simp: isDigit_def digitValue_def)

lemma digitValue_05: "is05 c \<Longrightarrow> 0 \<le> digitValue c \<and> digitValue c \<le> 5"
  by (auto simp: is05_def digitValue_def)

lemma digitValue_03: "is03 c \<Longrightarrow> 0 \<le> digitValue c \<and> digitValue c \<le> 3"
  by (auto simp: is03_def digitValue_def)

lemma digitValue_01: "is01 c \<Longrightarrow> 0 \<le> digitValue c \<and> digitValue c \<le> 1"
  by (auto simp: is01_def digitValue_def code_def)

lemma is03_digit: "is03 c \<Longrightarrow> isDigit c"
  by (auto simp: is03_def isDigit_def)

lemma is05_digit: "is05 c \<Longrightarrow> isDigit c"
  by (auto simp: is05_def isDigit_def)

lemma is01_digit: "is01 c \<Longrightarrow> isDigit c"
  by (auto simp: is01_def isDigit_def code_def)

lemma digit_two: "digitValue CHR ''2'' = 2" "isDigit CHR ''2''" "isDigit CHR ''0''" "digitValue CHR ''0'' = 0"
  by (simp_all add: digitValue_def isDigit_def code_def)

lemma toNumber_two: "toNumber [a, b] = 10 * digitValue a + digitValue b"
  by (simp add: toNumber_def)

lemma toNumber_one: "toNumber [a] = digitValue a"
  by (simp add: toNumber_def)

lemma twentyFourHour_Some:
  assumes "twentyFourHour s = Some (h, m)"
  obtains h1 m1 m2 where "s = [h1, CHR '':'', m1, m2]" "h = [h1]" "m = [m1, m2]"
      "isDigit h1" "is05 m1" "isDigit m2"
  | h1 h2 m1 m2 where "s = [h1, h2, CHR '':'', m1, m2]" "h = [h1, h2]" "m = [m1, m2]"
      "(is01 h1 \<and> isDigit h2) \<or> (h1 = CHR ''2'' \<and> is03 h2)" "is05 m1" "isDigit m2"
  using assms by (cases s rule: twentyFourHour.cases) (auto split: if_splits)

lemma twentyFourHour_canonical:
  assumes "twentyFourHour s = Some (h, m)"
  shows "isCanonicalTime (padStart 2 CHR ''0'' h @ '':'' @ m)
       \<and> toNumber (take 2 (padStart 2 CHR ''0'' h @ '':'' @ m)) = toNumber h"
  using assms
proof (cases rule: twentyFourHour_Some)
  case (1 h1 m1 m2)
  then show ?thesis
    using digitValue_digit [of h1] digitValue_05 [of m1] digitValue_digit [of m2]
    by (simp add: isCanonicalTime_def padStart_def toNumber_two toNumber_one digit_two is05_digit)
next
  case (2 h1 h2 m1 m2)
  then show ?thesis
    using digitValue_digit [of h2] digitValue_01 [of h1] digitValue_03 [of h2]
      digitValue_05 [of m1] digitValue_digit [of m2]
    by (auto simp: isCanonicalTime_def padStart_def toNumber_two digit_two is05_digit
        is01_digit is03_digit)
qed

lemma digitChar_table:
  "isDigit (digitChar 0) \<and> digitValue (digitChar 0) = 0"
  "isDigit (digitChar 1) \<and> digitValue (digitChar 1) = 1"
  "isDigit (digitChar 2) \<and> digitValue (digitChar 2) = 2"
  "isDigit (digitChar 3) \<and> digitValue (digitChar 3) = 3"
  "isDigit (digitChar 4) \<and> digitValue (digitChar 4) = 4"
  "isDigit (digitChar 5) \<and> digitValue (digitChar 5) = 5"
  "isDigit (digitChar 6) \<and> digitValue (digitChar 6) = 6"
  "isDigit (digitChar 7) \<and> digitValue (digitChar 7) = 7"
  "isDigit (digitChar 8) \<and> digitValue (digitChar 8) = 8"
  "isDigit (digitChar 9) \<and> digitValue (digitChar 9) = 9"
  by code_simp+

lemma digitChar_digit:
  assumes "0 \<le> k" and "k \<le> 9"
  shows "isDigit (digitChar k) \<and> digitValue (digitChar k) = k"
proof -
  from assms have "k = 0 \<or> k = 1 \<or> k = 2 \<or> k = 3 \<or> k = 4 \<or> k = 5 \<or> k = 6 \<or> k = 7
      \<or> k = 8 \<or> k = 9"
    by arith
  then show ?thesis using digitChar_table by (elim disjE) (simp_all only:)
qed

lemma toString_small: "0 \<le> n \<Longrightarrow> n < 10 \<Longrightarrow> toString n = [digitChar n]"
  by (simp add: toString_def digits.simps [of n])

lemma toString_two: "10 \<le> n \<Longrightarrow> n < 100 \<Longrightarrow> toString n = [digitChar (n div 10), digitChar (n mod 10)]"
proof -
  assume n: "10 \<le> n" "n < 100"
  then have "n div 10 < 10" by simp
  with n show ?thesis
    by (simp add: toString_def digits.simps [of n] digits.simps [of "n div 10"])
qed

lemma padStart_hour:
  assumes "0 \<le> n" and "n < 100"
  shows "padStart 2 CHR ''0'' (toString n) = [digitChar (n div 10), digitChar (n mod 10)]"
proof (cases "n < 10")
  case True
  have "digitChar 0 = CHR ''0''" by code_simp
  with True assms show ?thesis by (simp add: toString_small padStart_def)
next
  case False
  with assms show ?thesis by (simp add: toString_two padStart_def)
qed

lemma hour_canonical:
  assumes "0 \<le> n" "n \<le> 23" "m = [m1, m2]" "isDigit m1" "isDigit m2" "toNumber m \<le> 59"
  shows "isCanonicalTime (padStart 2 CHR ''0'' (toString n) @ '':'' @ m)
       \<and> toNumber (take 2 (padStart 2 CHR ''0'' (toString n) @ '':'' @ m)) = n
       \<and> drop 3 (padStart 2 CHR ''0'' (toString n) @ '':'' @ m) = m"
proof -
  have p: "padStart 2 CHR ''0'' (toString n) = [digitChar (n div 10), digitChar (n mod 10)]"
    using assms(1,2) by (intro padStart_hour) simp_all
  have "0 \<le> n div 10" "n div 10 \<le> 9" "0 \<le> n mod 10" "n mod 10 \<le> 9"
    using assms(1,2) by simp_all
  with assms digitChar_digit [of "n div 10"] digitChar_digit [of "n mod 10"] show ?thesis
    by (simp add: p isCanonicalTime_def toNumber_two)
qed

lemma matchMeridiem_Some:
  assumes "matchMeridiem rest = Some mer"
  shows "rest = takeWhile isWhiteSpace rest @ mer
       \<and> (toLowerCase mer = ''am'' \<or> toLowerCase mer = ''pm'')"
proof -
  from assms have "mer = dropWhile isWhiteSpace rest"
    by (simp add: matchMeridiem_def Let_def split: if_splits)
  moreover from assms
  have "toLowerCase (dropWhile isWhiteSpace rest) = ''am''
      \<or> toLowerCase (dropWhile isWhiteSpace rest) = ''pm''"
    by (simp add: matchMeridiem_def Let_def split: if_splits)
  ultimately show ?thesis by simp
qed

lemma twelveHour_Some:
  assumes "twelveHour s = Some (h, m, mer)"
  shows "\<exists>m1 m2 w. s = h @ '':'' @ m @ w @ mer \<and> (length h = 1 \<or> length h = 2)
           \<and> list_all isDigit h \<and> m = [m1, m2] \<and> isDigit m1 \<and> isDigit m2
           \<and> list_all isWhiteSpace w
           \<and> (toLowerCase mer = ''am'' \<or> toLowerCase mer = ''pm'')"
proof -
  define h0 where "h0 = takeWhile isDigit s"
  define t where "t = drop (length h0) s"
  have len: "length h0 = 1 \<or> length h0 = 2"
  proof (rule ccontr)
    assume "\<not> (length h0 = 1 \<or> length h0 = 2)"
    then have "twelveHour s = None"
      unfolding twelveHour_def Let_def h0_def by (simp only: if_False)
    with assms show False by simp
  qed
  have tw: "twelveHour s =
      (case t of
         c # m1 # m2 # rest \<Rightarrow>
           if c = CHR '':'' \<and> isDigit m1 \<and> isDigit m2 then
             (case matchMeridiem rest of Some mer \<Rightarrow> Some (h0, [m1, m2], mer) | None \<Rightarrow> None)
           else None
       | _ \<Rightarrow> None)"
    unfolding twelveHour_def Let_def h0_def [symmetric] t_def [symmetric]
    using len by (simp only: if_True)
  from assms tw obtain c m1 m2 rest where t: "t = c # m1 # m2 # rest"
    by (cases t; cases "tl t"; cases "tl (tl t)") auto
  from assms tw t have c: "c = CHR '':''" "isDigit m1" "isDigit m2"
    by (auto split: if_splits)
  with assms tw t obtain mer0 where r: "matchMeridiem rest = Some mer0"
    by (cases "matchMeridiem rest") auto
  with assms tw t c have eq: "h = h0" "m = [m1, m2]" "mer = mer0" by auto
  note mm = matchMeridiem_Some [OF r]
  have "s = take (length h0) s @ t" by (simp add: t_def)
  moreover have "take (length h0) s = h0"
    unfolding h0_def by (rule takeWhile_eq_take [symmetric])
  ultimately have "s = h @ '':'' @ m @ takeWhile isWhiteSpace rest @ mer"
    using t c(1) eq mm by simp
  moreover have "list_all isDigit h"
    unfolding eq h0_def by (auto simp: list_all_iff dest: set_takeWhileD)
  moreover have "list_all isWhiteSpace (takeWhile isWhiteSpace rest)"
    by (auto simp: list_all_iff dest: set_takeWhileD)
  ultimately show ?thesis using len eq c mm by blast
qed

text \<open>What the twelve-hour branch does on the hours of a clock.\<close>

lemma normalizeTime_twelveHour_in_range:
  assumes "twelveHour (toLowerCase (trim v)) = Some (h, m, mer)"
    and "1 \<le> toNumber h" and "toNumber h \<le> 12" and "toNumber m \<le> 59"
  shows "\<exists>out. normalizeTime v = Inr out \<and> isCanonicalTime out \<and> drop 3 out = m
           \<and> toNumber (take 2 out) =
               (if toLowerCase mer = ''pm''
                then (if toNumber h = 12 then 12 else toNumber h + 12)
                else (if toNumber h = 12 then 0 else toNumber h))"
proof -
  define n where "n = (if toLowerCase mer = ''pm'' \<and> toNumber h \<noteq> 12 then toNumber h + 12
            else if toLowerCase mer = ''am'' \<and> toNumber h = 12 then 0 else toNumber h)"
  let ?out = "padStart 2 CHR ''0'' (toString n) @ '':'' @ m"
  from twelveHour_Some [OF assms(1)] obtain m1 m2 where
    m: "m = [m1, m2]" "isDigit m1" "isDigit m2"
    and lc: "toLowerCase mer = ''am'' \<or> toLowerCase mer = ''pm''"
    by blast
  have out: "normalizeTime v = Inr ?out"
    using assms(1) by (simp add: normalizeTime_def Let_def n_def)
  have n: "0 \<le> n" "n \<le> 23" using assms(2,3) by (auto simp: n_def)
  have hn: "n = (if toLowerCase mer = ''pm''
                then (if toNumber h = 12 then 12 else toNumber h + 12)
                else (if toNumber h = 12 then 0 else toNumber h))"
    using lc by (auto simp: n_def)
  note c = hour_canonical [OF n m assms(4)]
  from c have "isCanonicalTime ?out" and "toNumber (take 2 ?out) = n" and "drop 3 ?out = m"
    by blast+
  with out hn show ?thesis by (metis (no_types))
qed

lemma meridiem_head:
  assumes "toLowerCase mer = ''am'' \<or> toLowerCase mer = ''pm''"
  shows "mer = [] \<or> \<not> isWhiteSpace (hd mer)"
proof -
  from assms obtain x xs where m: "mer = x # xs"
    by (cases mer) (auto simp: toLowerCase_def)
  with assms have "toLowerCaseChar x = CHR ''a'' \<or> toLowerCaseChar x = CHR ''p''"
    by (auto simp: toLowerCase_def)
  moreover have "\<not> isWhiteSpace CHR ''a''" "\<not> isWhiteSpace CHR ''p''"
    by (simp_all add: isWhiteSpace_def code_def)
  ultimately have "\<not> isWhiteSpace (toLowerCaseChar x)" by auto
  then show ?thesis using m by (simp add: lower_ws)
qed

lemma matchMeridiem_shape:
  assumes "list_all isWhiteSpace w" and "toLowerCase mer = ''am'' \<or> toLowerCase mer = ''pm''"
  shows "matchMeridiem (w @ mer) = Some mer"
proof -
  have "dropWhile isWhiteSpace (w @ mer) = mer"
    using assms(1) meridiem_head [OF assms(2)] by (rule dropWhile_prefix)
  with assms(2) show ?thesis by (simp add: matchMeridiem_def Let_def)
qed

text \<open>
  Every string of the twelve-hour shape matches the pattern: one or two digits, a colon,
  two digits, any white space, and \<open>am\<close> or \<open>pm\<close> in either case.
\<close>

lemma twelveHour_shape:
  assumes "list_all isDigit h" and "length h = 1 \<or> length h = 2"
    and "isDigit m1" and "isDigit m2" and "list_all isWhiteSpace w"
    and "toLowerCase mer = ''am'' \<or> toLowerCase mer = ''pm''"
  shows "twelveHour (h @ '':'' @ [m1, m2] @ w @ mer) = Some (h, [m1, m2], mer)"
proof -
  let ?s = "h @ CHR '':'' # (m1 # m2 # w @ mer)"
  have c: "\<not> isDigit CHR '':''" by (simp add: isDigit_def code_def)
  have t: "takeWhile isDigit ?s = h" using assms(1) c by (rule takeWhile_all)
  have d: "drop (length h) ?s = CHR '':'' # m1 # m2 # w @ mer" by simp
  have "twelveHour ?s = Some (h, [m1, m2], mer)"
    unfolding twelveHour_def Let_def t d
    using assms(2,3,4) matchMeridiem_shape [OF assms(5,6)] by simp
  then show ?thesis by simp
qed

text \<open>The examples of the specification.\<close>

lemma normalizeTime_examples:
  "normalizeTime ''12:00 AM'' = Inr ''00:00''"
  "normalizeTime ''12:30 PM'' = Inr ''12:30''"
  "normalizeTime ''1:05 am'' = Inr ''01:05''"
  "normalizeTime ''9:30'' = Inr ''09:30''"
  "normalizeTime ''25:00'' = Inl (Error ''Invalid time format. Use HH:MM or HH:MM AM/PM.'')"
  "normalizeTime ''noon'' = Inl (Error ''Invalid time format. Use HH:MM or HH:MM AM/PM.'')"
  by code_simp+

section \<open>Times outside the clock\<close>

text \<open>
  C1. The twelve-hour pattern takes any two digits for the hour: \<open>88:00 pm\<close> is accepted
  and normalized to \<open>100:00\<close>, which is not of the form \<open>HH:MM\<close>.
\<close>

theorem twelve_hour_overflow:
  "normalizeTime ''88:00 pm'' = Inr ''100:00'' \<and> \<not> isHHMM ''100:00''"
  by code_simp

text \<open>
  C2. The twelve-hour pattern checks neither the hour nor the minutes: \<open>13:75 pm\<close> is
  accepted and stored as \<open>25:75\<close>, which is not a time of day.
\<close>

theorem twelve_hour_unchecked:
  "normalizeTime ''13:75 pm'' = Inr ''25:75'' \<and> \<not> isCanonicalTime ''25:75''"
  by code_simp

section \<open>Dates\<close>

lemma normalizeDate_rejects_iff:
  "normalizeDate P v = Inl e \<longleftrightarrow> P v = None \<and> e = Error ''Invalid date format.''"
  by (auto simp: normalizeDate_def split: option.splits)

lemma normalizeDate_accepts: "P v = Some t \<Longrightarrow> normalizeDate P v = Inr (isoDatePortion t)"
  by (simp add: normalizeDate_def)

lemma isoDatePortion_day:
  assumes "86400000 * d \<le> t" and "t < 86400000 * (d + 1)"
  shows "isoDatePortion t = isoDatePortion (86400000 * d)"
proof -
  from assms have "t div 86400000 = d"
    by (intro int_div_pos_eq [where r = "t - 86400000 * d"]) simp_all
  then show ?thesis by (simp add: isoDatePortion_def)
qed

lemma march5_on_utc_day:
  assumes "P v = Some t" and "1709596800000 \<le> t" and "t < 1709683200000"
  shows "normalizeDate P v = Inr ''2024-03-05''"
proof -
  have "isoDatePortion (86400000 * 19787) = ''2024-03-05''" by code_simp
  moreover have "isoDatePortion t = isoDatePortion (86400000 * 19787)"
    using assms(2,3) by (intro isoDatePortion_day) simp_all
  ultimately show ?thesis using assms(1) by (simp add: normalizeDate_def)
qed

lemma march5_east_of_utc:
  assumes "P v = Some t" and "1709510400000 \<le> t" and "t < 1709596800000"
  shows "normalizeDate P v = Inr ''2024-03-04''"
proof -
  have "isoDatePortion (86400000 * 19786) = ''2024-03-04''" by code_simp
  moreover have "isoDatePortion t = isoDatePortion (86400000 * 19786)"
    using assms(2,3) by (intro isoDatePortion_day) simp_all
  ultimately show ?thesis using assms(1) by (simp add: normalizeDate_def)
qed

lemma normalizeDate_date_only: "normalizeDate sampleParser ''2024-03-05'' = Inr ''2024-03-05''"
  by code_simp

text \<open>
  C3. The stored date is the UTC day of the parsed instant, not the calendar date that was
  written: \<open>2024-03-05T23:30:00-05:00\<close>, whose date portion is \<open>2024-03-05\<close>, is stored as
  \<open>2024-03-06\<close>.
\<close>

theorem date_offset_shifts_day:
  "normalizeDate sampleParser ''2024-03-05T23:30:00-05:00'' = Inr ''2024-03-06''
   \<and> take 10 ''2024-03-05T23:30:00-05:00'' = ''2024-03-05''"
  by code_simp

section \<open>The Event hook\<close>

lemma set_stringFields: "f \<in> set stringFields"
  by (cases f) (simp_all add: stringFields_def)

lemma checkStringFields_Inr:
  "checkStringFields fs doc = Inr d \<Longrightarrow>
     slug d = slug doc \<and> agenda d = agenda doc \<and> tags d = tags doc
     \<and> isModifiedFn d = isModifiedFn doc
     \<and> strs d = (\<lambda>f. if f \<in> set fs then map_option trim (strs doc f) else strs doc f)"
proof (induction fs arbitrary: doc)
  case Nil
  then show ?case by simp
next
  case (Cons f fs)
  from Cons.prems obtain v where v: "strs doc f = Some v" "trim v \<noteq> []"
    and rest: "checkStringFields fs (doc\<lparr>strs := (strs doc)(f \<mapsto> trim v)\<rparr>) = Inr d"
    by (auto split: option.splits if_splits)
  from Cons.IH [OF rest] v show ?case
    by (auto simp: fun_eq_iff trim_trim)
qed

lemma checkStringFields_nonempty:
  "checkStringFields fs doc = Inr d \<Longrightarrow> f \<in> set fs \<Longrightarrow> \<exists>v. strs doc f = Some v \<and> trim v \<noteq> []"
proof (induction fs arbitrary: doc)
  case Nil
  then show ?case by simp
next
  case (Cons g fs)
  from Cons.prems(1) obtain v where v: "strs doc g = Some v" "trim v \<noteq> []"
    and rest: "checkStringFields fs (doc\<lparr>strs := (strs doc)(g \<mapsto> trim v)\<rparr>) = Inr d"
    by (auto split: option.splits if_splits)
  show ?case
  proof (cases "f = g")
    case True
    with v show ?thesis by simp
  next
    case False
    with Cons.prems(2) have "f \<in> set fs" by simp
    from Cons.IH [OF rest this] False show ?thesis by simp
  qed
qed

lemma handleNormalize_Inr:
  assumes "handleNormalize P doc = Inr d'"
  shows "\<exists>d1 ag tg. checkStringFields stringFields doc = Inr d1
           \<and> normalizeList ''agenda'' (agenda doc) = Inr ag
           \<and> normalizeList ''tags'' (tags doc) = Inr tg
           \<and> agenda d' = Some (map Some ag) \<and> tags d' = Some (map Some tg)
           \<and> slug d' = (if slugFalsy (slug doc) \<or> titleChanged doc
                         then map_option toSlug (strs d1 title) else slug doc)"
  using assms
  by (auto simp: handleNormalize_def Let_def titleChanged_def
      split: sum.splits option.splits if_splits dest!: checkStringFields_Inr)


lemma trim_empty_iff: "trim s = [] \<longleftrightarrow> list_all isWhiteSpace s"
proof
  assume "trim s = []"
  with trim_def [of s] have "dropWhile isWhiteSpace (rev (dropWhile isWhiteSpace s)) = []"
    by simp
  then have all: "\<forall>x \<in> set (dropWhile isWhiteSpace s). isWhiteSpace x"
    by (simp add: dropWhile_eq_Nil_conv)
  have "dropWhile isWhiteSpace s = []"
  proof (rule ccontr)
    assume ne: "dropWhile isWhiteSpace s \<noteq> []"
    then have "\<not> isWhiteSpace (hd (dropWhile isWhiteSpace s))" by (rule hd_dropWhile)
    moreover have "hd (dropWhile isWhiteSpace s) \<in> set (dropWhile isWhiteSpace s)"
      using ne by (rule hd_in_set)
    ultimately show False using all by blast
  qed
  then show "list_all isWhiteSpace s" by (simp add: list_all_iff)
next
  assume "list_all isWhiteSpace s"
  then have "dropWhile isWhiteSpace s = []" by (simp add: list_all_iff)
  then show "trim s = []" by (simp add: trim_def del: dropWhile_eq_Nil_conv)
qed

lemma trimItems_Some: "trimItems n (map Some ss) = Inr (map trim ss)"
  by (induction ss) auto

lemma trimItems_None:
  "None \<in> set items \<Longrightarrow> trimItems n items = Inl (Error (n @ '' must contain strings.''))"
  by (induction items) (auto split: option.splits sum.splits)

lemma normalizeList_None:
  "None \<in> set items \<Longrightarrow> normalizeList n (Some items) = Inl (Error (n @ '' must contain strings.''))"
  by (simp add: normalizeList_def trimItems_None)

lemma normalizeList_Some:
  "normalizeList n (Some (map Some ss)) =
     (if trimAndDrop ss = [] then Inl (Error (n @ '' is required and must be a non-empty array.''))
      else Inr (trimAndDrop ss))"
  by (simp add: normalizeList_def trimItems_Some trimAndDrop_def Let_def)

lemma normalizeList_absent:
  "normalizeList n None = Inl (Error (n @ '' is required and must be a non-empty array.''))"
  by (simp add: normalizeList_def)

lemma trimAndDrop_blank: "list_all (list_all isWhiteSpace) ss \<Longrightarrow> trimAndDrop ss = []"
  by (induction ss) (auto simp: trimAndDrop_def trim_empty_iff)

lemma handleNormalize_agenda_error:
  "checkStringFields stringFields doc = Inr d1 \<Longrightarrow> normalizeList ''agenda'' (agenda doc) = Inl e
     \<Longrightarrow> handleNormalize P doc = Inl e"
  by (auto simp: handleNormalize_def dest!: checkStringFields_Inr)

lemma handleNormalize_tags_error:
  "checkStringFields stringFields doc = Inr d1 \<Longrightarrow> normalizeList ''agenda'' (agenda doc) = Inr ag
     \<Longrightarrow> normalizeList ''tags'' (tags doc) = Inl e \<Longrightarrow> handleNormalize P doc = Inl e"
  by (auto simp: handleNormalize_def dest!: checkStringFields_Inr)

lemma strings_map_filter: "None \<notin> set items \<Longrightarrow> items = map Some (strings items)"
  by (induction items rule: strings.induct) auto

lemma listRejected_normalizeList: "listRejected xs \<Longrightarrow> isl (normalizeList n xs)"
proof (cases xs)
  case None
  then show ?thesis by (simp add: normalizeList_absent)
next
  case (Some items)
  assume r: "listRejected xs"
  show ?thesis
  proof (cases "None \<in> set items")
    case True
    with Some show ?thesis by (simp add: normalizeList_None)
  next
    case False
    then have "items = map Some (strings items)" by (rule strings_map_filter)
    moreover from r Some False have "trimAndDrop (strings items) = []"
      by (simp add: listRejected_def)
    ultimately show ?thesis
      using Some normalizeList_Some [of n "strings items"] by simp
  qed
qed

lemma handleNormalize_lists_rejected:
  assumes "listRejected (agenda doc) \<or> listRejected (tags doc)"
  shows "isl (handleNormalize P doc)"
proof (rule ccontr)
  assume "\<not> isl (handleNormalize P doc)"
  then obtain d' where "handleNormalize P doc = Inr d'"
    by (cases "handleNormalize P doc") auto
  from handleNormalize_Inr [OF this] obtain ag tg where
    "normalizeList ''agenda'' (agenda doc) = Inr ag" "normalizeList ''tags'' (tags doc) = Inr tg"
    by blast
  with assms listRejected_normalizeList [of "agenda doc" "''agenda''"]
    listRejected_normalizeList [of "tags doc" "''tags''"]
  show False by auto
qed

lemma agenda_tags_steps:
  assumes ok: "stringFieldsOk doc"
  shows "(agenda doc = Some items \<and> None \<in> set items
            \<longrightarrow> handleNormalize P doc = Inl (Error ''agenda must contain strings.''))
       \<and> ((agenda doc = None \<or> (agenda doc = Some (map Some as) \<and> trimAndDrop as = []))
            \<longrightarrow> handleNormalize P doc = Inl (Error ''agenda is required and must be a non-empty array.''))
       \<and> (agenda doc = Some (map Some as) \<and> list_all (list_all isWhiteSpace) as
            \<longrightarrow> handleNormalize P doc = Inl (Error ''agenda is required and must be a non-empty array.''))
       \<and> (agenda doc = Some (map Some as) \<and> trimAndDrop as \<noteq> []
            \<and> tags doc = Some items \<and> None \<in> set items
            \<longrightarrow> handleNormalize P doc = Inl (Error ''tags must contain strings.''))
       \<and> (agenda doc = Some (map Some as) \<and> trimAndDrop as \<noteq> []
            \<and> (tags doc = None \<or> (tags doc = Some (map Some ts) \<and> trimAndDrop ts = []))
            \<longrightarrow> handleNormalize P doc = Inl (Error ''tags is required and must be a non-empty array.''))
       \<and> (agenda doc = Some (map Some as) \<and> trimAndDrop as \<noteq> []
            \<and> tags doc = Some (map Some ts) \<and> list_all (list_all isWhiteSpace) ts
            \<longrightarrow> handleNormalize P doc = Inl (Error ''tags is required and must be a non-empty array.''))
       \<and> (handleNormalize P doc = Inr d' \<and> agenda doc = Some (map Some as)
            \<and> tags doc = Some (map Some ts)
            \<longrightarrow> agenda d' = Some (map Some (trimAndDrop as))
                \<and> tags d' = Some (map Some (trimAndDrop ts)))"
proof -
  from ok obtain d1 where d1: "checkStringFields stringFields doc = Inr d1"
    by (auto simp: stringFieldsOk_def split: sum.splits)
  note ae = handleNormalize_agenda_error [OF d1, of _ P]
  note te = handleNormalize_tags_error [OF d1, of _ _ P]
  have c1: "agenda doc = Some items \<and> None \<in> set items
            \<longrightarrow> handleNormalize P doc = Inl (Error ''agenda must contain strings.'')"
    using ae normalizeList_None [of items "''agenda''"] by auto
  have c2: "(agenda doc = None \<or> (agenda doc = Some (map Some as) \<and> trimAndDrop as = []))
            \<longrightarrow> handleNormalize P doc = Inl (Error ''agenda is required and must be a non-empty array.'')"
    using ae normalizeList_Some [of "''agenda''" as] normalizeList_absent [of "''agenda''"] by auto
  have c3: "agenda doc = Some (map Some as) \<and> list_all (list_all isWhiteSpace) as
            \<longrightarrow> handleNormalize P doc = Inl (Error ''agenda is required and must be a non-empty array.'')"
    using c2 trimAndDrop_blank [of as] by blast
  have c4: "agenda doc = Some (map Some as) \<and> trimAndDrop as \<noteq> []
            \<and> tags doc = Some items \<and> None \<in> set items
            \<longrightarrow> handleNormalize P doc = Inl (Error ''tags must contain strings.'')"
    using te normalizeList_Some [of "''agenda''" as] normalizeList_None [of items "''tags''"] by auto
  have c5: "agenda doc = Some (map Some as) \<and> trimAndDrop as \<noteq> []
            \<and> (tags doc = None \<or> (tags doc = Some (map Some ts) \<and> trimAndDrop ts = []))
            \<longrightarrow> handleNormalize P doc = Inl (Error ''tags is required and must be a non-empty array.'')"
    using te normalizeList_Some [of "''agenda''" as] normalizeList_Some [of "''tags''" ts]
      normalizeList_absent [of "''tags''"] by auto
  have c6: "agenda doc = Some (map Some as) \<and> trimAndDrop as \<noteq> []
            \<and> tags doc = Some (map Some ts) \<and> list_all (list_all isWhiteSpace) ts
            \<longrightarrow> handleNormalize P doc = Inl (Error ''tags is required and must be a non-empty array.'')"
    using c5 trimAndDrop_blank [of ts] by blast
  have c7: "handleNormalize P doc = Inr d' \<and> agenda doc = Some (map Some as)
            \<and> tags doc = Some (map Some ts)
            \<longrightarrow> agenda d' = Some (map Some (trimAndDrop as))
                \<and> tags d' = Some (map Some (trimAndDrop ts))"
    using handleNormalize_Inr [of P doc d'] normalizeList_Some [of "''agenda''" as]
      normalizeList_Some [of "''tags''" ts]
    by (auto split: if_splits)
  from c1 c2 c3 c4 c5 c6 c7 show ?thesis by blast
qed

text \<open>
  C6, as amended. The hook normalizes \<open>agenda\<close> and then \<open>tags\<close> by the same procedure:
  every entry is trimmed, an entry that is not a string throws, the entries that became
  empty are dropped, and an empty result throws. A list that is absent, has an entry that
  is not a string, or has nothing left after trimming (so a list of white space only)
  fails the hook, whichever of the two lists it is. The error is the one of the first
  check that fails: when the check of the string paths has passed, an entry of \<open>agenda\<close>
  that is not a string gives \<open>agenda must contain strings.\<close> and an \<open>agenda\<close> left
  empty gives \<open>agenda is required and must be a non-empty array.\<close>; when \<open>agenda\<close>
  has passed as well, the same holds of \<open>tags\<close> with its name in the message. A hook
  that succeeds leaves the trimmed, non-empty entries in both lists.
\<close>

theorem agenda_tags_normalization:
  "(listRejected (agenda doc) \<or> listRejected (tags doc) \<longrightarrow> isl (handleNormalize P doc))
   \<and> (stringFieldsOk doc \<longrightarrow>
       (agenda doc = Some items \<and> None \<in> set items
            \<longrightarrow> handleNormalize P doc = Inl (Error ''agenda must contain strings.''))
       \<and> ((agenda doc = None \<or> (agenda doc = Some (map Some as) \<and> trimAndDrop as = []))
            \<longrightarrow> handleNormalize P doc = Inl (Error ''agenda is required and must be a non-empty array.''))
       \<and> (agenda doc = Some (map Some as) \<and> list_all (list_all isWhiteSpace) as
            \<longrightarrow> handleNormalize P doc = Inl (Error ''agenda is required and must be a non-empty array.''))
       \<and> (agenda doc = Some (map Some as) \<and> trimAndDrop as \<noteq> []
            \<and> tags doc = Some items \<and> None \<in> set items
            \<longrightarrow> handleNormalize P doc = Inl (Error ''tags must contain strings.''))
       \<and> (agenda doc = Some (map Some as) \<and> trimAndDrop as \<noteq> []
            \<and> (tags doc = None \<or> (tags doc = Some (map Some ts) \<and> trimAndDrop ts = []))
            \<longrightarrow> handleNormalize P doc = Inl (Error ''tags is required and must be a non-empty array.''))
       \<and> (agenda doc = Some (map Some as) \<and> trimAndDrop as \<noteq> []
            \<and> tags doc = Some (map Some ts) \<and> list_all (list_all isWhiteSpace) ts
            \<longrightarrow> handleNormalize P doc = Inl (Error ''tags is required and must be a non-empty array.''))
       \<and> (handleNormalize P doc = Inr d' \<and> agenda doc = Some (map Some as)
            \<and> tags doc = Some (map Some ts)
            \<longrightarrow> agenda d' = Some (map Some (trimAndDrop as))
                \<and> tags d' = Some (map Some (trimAndDrop ts))))"
  using handleNormalize_lists_rejected [of doc P] agenda_tags_steps [of doc items P as ts d']
  by blast

text \<open>
  The theorem at documents whose agenda holds an entry that is not a string, is absent, or
  is all white space; at documents whose tags hold an entry that is not a string, are
  absent, or are all white space; at a document that fails the check of the string paths
  and has a tag that is not a string; and at a document that is saved.
\<close>

theorem agenda_tags_normalization_witness:
  "handleNormalize sampleParser ((sampleEvent ''Meetup'')\<lparr>agenda := Some [Some ''Intro'', None]\<rparr>)
     = Inl (Error ''agenda must contain strings.'')
   \<and> handleNormalize sampleParser ((sampleEvent ''Meetup'')\<lparr>agenda := None\<rparr>)
     = Inl (Error ''agenda is required and must be a non-empty array.'')
   \<and> handleNormalize sampleParser ((sampleEvent ''Meetup'')\<lparr>agenda := Some [Some '' '', Some '''']\<rparr>)
     = Inl (Error ''agenda is required and must be a non-empty array.'')
   \<and> handleNormalize sampleParser ((sampleEvent ''Meetup'')\<lparr>tags := Some [None, Some ''js'']\<rparr>)
     = Inl (Error ''tags must contain strings.'')
   \<and> handleNormalize sampleParser ((sampleEvent ''Meetup'')\<lparr>tags := None\<rparr>)
     = Inl (Error ''tags is required and must be a non-empty array.'')
   \<and> handleNormalize sampleParser ((sampleEvent ''Meetup'')\<lparr>tags := Some [Some ''  '', Some '''']\<rparr>)
     = Inl (Error ''tags is required and must be a non-empty array.'')
   \<and> isl (handleNormalize sampleParser
        ((sampleEvent ''Meetup'')\<lparr>strs := (\<lambda>f. None), tags := Some [None]\<rparr>))
   \<and> map_sum id (\<lambda>d. (agenda d, tags d)) (handleNormalize sampleParser (sampleEvent ''Meetup''))
     = Inr (Some [Some ''Doors open'', Some ''Talks''], Some [Some ''node'', Some ''js''])"
proof -
  let ?c = "sampleEvent ''Meetup''"
  let ?a1 = "?c\<lparr>agenda := Some [Some ''Intro'', None]\<rparr>"
  let ?a2 = "?c\<lparr>agenda := None\<rparr>"
  let ?a3 = "?c\<lparr>agenda := Some [Some '' '', Some '''']\<rparr>"
  let ?t1 = "?c\<lparr>tags := Some [None, Some ''js'']\<rparr>"
  let ?t2 = "?c\<lparr>tags := None\<rparr>"
  let ?t3 = "?c\<lparr>tags := Some [Some ''  '', Some '''']\<rparr>"
  let ?ag = "['' Doors open '', ''   '', ''Talks'']"
  let ?tg = "[''node'', '' js '']"
  have ok: "stringFieldsOk ?c" by code_simp
  have oka1: "stringFieldsOk ?a1" by code_simp
  have oka2: "stringFieldsOk ?a2" by code_simp
  have oka3: "stringFieldsOk ?a3" by code_simp
  have okt1: "stringFieldsOk ?t1" by code_simp
  have okt2: "stringFieldsOk ?t2" by code_simp
  have okt3: "stringFieldsOk ?t3" by code_simp
  have ta: "trimAndDrop ?ag = [''Doors open'', ''Talks'']" by code_simp
  have tt: "trimAndDrop ?tg = [''node'', ''js'']" by code_simp
  have ne: "trimAndDrop ?ag \<noteq> []" by (simp only: ta) simp
  have bl: "list_all (list_all isWhiteSpace) [''  '', '''']" by code_simp
  have bl': "list_all (list_all isWhiteSpace) ['' '', '''']" by code_simp
  have agc: "agenda ?c = Some (map Some ?ag)" by (simp add: sampleEvent_def)
  have tgc: "tags ?c = Some (map Some ?tg)" by (simp add: sampleEvent_def)
  have r1: "handleNormalize sampleParser ?a1 = Inl (Error ''agenda must contain strings.'')"
  proof -
    have h: "agenda ?a1 = Some [Some ''Intro'', None] \<and> None \<in> set [Some ''Intro'', None]"
      by simp
    show ?thesis
      by (rule agenda_tags_normalization [THEN conjunct2, THEN mp, OF oka1, THEN conjunct1, THEN mp, OF h])
  qed
  have r2: "handleNormalize sampleParser ?a2
      = Inl (Error ''agenda is required and must be a non-empty array.'')"
  proof -
    have h: "agenda ?a2 = None \<or> (agenda ?a2 = Some (map Some []) \<and> trimAndDrop [] = [])"
      by simp
    show ?thesis
      by (rule agenda_tags_normalization [THEN conjunct2, THEN mp, OF oka2, THEN conjunct2, THEN conjunct1, THEN mp,
            OF h])
  qed
  have r3: "handleNormalize sampleParser ?a3
      = Inl (Error ''agenda is required and must be a non-empty array.'')"
  proof -
    have "agenda ?a3 = Some (map Some ['' '', ''''])" by simp
    with bl' have h: "agenda ?a3 = Some (map Some ['' '', ''''])
        \<and> list_all (list_all isWhiteSpace) ['' '', '''']"
      by (intro conjI)
    show ?thesis
      by (rule agenda_tags_normalization [THEN conjunct2, THEN mp, OF oka3, THEN conjunct2, THEN conjunct2,
            THEN conjunct1, THEN mp, OF h])
  qed
  have r4: "handleNormalize sampleParser ?t1 = Inl (Error ''tags must contain strings.'')"
  proof -
    have "agenda ?t1 = Some (map Some ?ag)" using agc by simp
    moreover have "tags ?t1 = Some [None, Some ''js''] \<and> None \<in> set [None, Some ''js'']"
      by simp
    ultimately have h: "agenda ?t1 = Some (map Some ?ag) \<and> trimAndDrop ?ag \<noteq> []
        \<and> tags ?t1 = Some [None, Some ''js''] \<and> None \<in> set [None, Some ''js'']"
      using ne by (intro conjI) simp_all
    show ?thesis
      by (rule agenda_tags_normalization [THEN conjunct2, THEN mp, OF okt1, THEN conjunct2, THEN conjunct2,
            THEN conjunct2, THEN conjunct1, THEN mp, OF h])
  qed
  have r5: "handleNormalize sampleParser ?t2
      = Inl (Error ''tags is required and must be a non-empty array.'')"
  proof -
    have "agenda ?t2 = Some (map Some ?ag)" using agc by simp
    moreover have "tags ?t2 = None \<or> (tags ?t2 = Some (map Some []) \<and> trimAndDrop [] = [])"
      by simp
    ultimately have h: "agenda ?t2 = Some (map Some ?ag) \<and> trimAndDrop ?ag \<noteq> []
        \<and> (tags ?t2 = None \<or> (tags ?t2 = Some (map Some []) \<and> trimAndDrop [] = []))"
      using ne by (intro conjI)
    show ?thesis
      by (rule agenda_tags_normalization [THEN conjunct2, THEN mp, OF okt2, THEN conjunct2, THEN conjunct2,
            THEN conjunct2, THEN conjunct2, THEN conjunct1, THEN mp, OF h])
  qed
  have r6: "handleNormalize sampleParser ?t3
      = Inl (Error ''tags is required and must be a non-empty array.'')"
  proof -
    have "agenda ?t3 = Some (map Some ?ag)" using agc by simp
    moreover have "tags ?t3 = Some (map Some [''  '', ''''])" by simp
    ultimately have h: "agenda ?t3 = Some (map Some ?ag) \<and> trimAndDrop ?ag \<noteq> []
        \<and> tags ?t3 = Some (map Some [''  '', '''']) \<and> list_all (list_all isWhiteSpace) [''  '', '''']"
      using ne bl by (intro conjI)
    show ?thesis
      by (rule agenda_tags_normalization [THEN conjunct2, THEN mp, OF okt3, THEN conjunct2, THEN conjunct2,
            THEN conjunct2, THEN conjunct2, THEN conjunct2, THEN conjunct1, THEN mp, OF h])
  qed
  have r7: "map_sum id (\<lambda>d. (agenda d, tags d)) (handleNormalize sampleParser ?c)
     = Inr (Some [Some ''Doors open'', Some ''Talks''], Some [Some ''node'', Some ''js''])"
  proof -
    have "\<not> isl (handleNormalize sampleParser ?c)" by code_simp
    then obtain c' where c': "handleNormalize sampleParser ?c = Inr c'"
      by (cases "handleNormalize sampleParser ?c") auto
    from c' agc tgc have h: "handleNormalize sampleParser ?c = Inr c'
        \<and> agenda ?c = Some (map Some ?ag) \<and> tags ?c = Some (map Some ?tg)"
      by (intro conjI)
    have "agenda c' = Some (map Some (trimAndDrop ?ag))
        \<and> tags c' = Some (map Some (trimAndDrop ?tg))"
      by (rule agenda_tags_normalization [THEN conjunct2, THEN mp, OF ok, THEN conjunct2, THEN conjunct2, THEN conjunct2,
            THEN conjunct2, THEN conjunct2, THEN conjunct2, THEN mp, OF h])
    then have "agenda c' = Some [Some ''Doors open'', Some ''Talks'']
        \<and> tags c' = Some [Some ''node'', Some ''js'']"
      by (simp only: ta tt) simp
    then show ?thesis by (simp add: c')
  qed
  have r0: "isl (handleNormalize sampleParser (?c\<lparr>strs := (\<lambda>f. None), tags := Some [None]\<rparr>))"
  proof -
    have "listRejected (tags (?c\<lparr>strs := (\<lambda>f. None), tags := Some [None]\<rparr>))"
      by (simp add: listRejected_def)
    then have h: "listRejected (agenda (?c\<lparr>strs := (\<lambda>f. None), tags := Some [None]\<rparr>))
        \<or> listRejected (tags (?c\<lparr>strs := (\<lambda>f. None), tags := Some [None]\<rparr>))"
      by (rule disjI2)
    show ?thesis by (rule agenda_tags_normalization [THEN conjunct1, THEN mp, OF h])
  qed
  from r1 r2 r3 r4 r5 r6 r0 r7 show ?thesis by (intro conjI)
qed

text \<open>
  C6 as stated fails: with an entry that is not a string in both lists the save fails
  with the message of \<open>agenda\<close>, not with \<open>tags must contain strings.\<close>; and with a blank
  title it fails with the message of the title, whatever the agenda holds.
\<close>

theorem list_message_counterexample:
  "handleNormalize sampleParser
       ((sampleEvent ''Meetup'')\<lparr>agenda := Some [None], tags := Some [None]\<rparr>)
     = Inl (Error ''agenda must contain strings.'')
   \<and> handleNormalize sampleParser ((sampleEvent ''   '')\<lparr>agenda := Some [None]\<rparr>)
     = Inl (Error ''title is required and must be a non-empty string.'')"
proof -
  let ?a = "handleNormalize sampleParser
       ((sampleEvent ''Meetup'')\<lparr>agenda := Some [None], tags := Some [None]\<rparr>)"
  let ?b = "handleNormalize sampleParser ((sampleEvent ''   '')\<lparr>agenda := Some [None]\<rparr>)"
  have "case ?a of Inl e \<Rightarrow> e = Error ''agenda must contain strings.'' | Inr d \<Rightarrow> False"
    by code_simp
  then have a: "?a = Inl (Error ''agenda must contain strings.'')"
    by (cases ?a) simp_all
  have "case ?b of Inl e \<Rightarrow> e = Error ''title is required and must be a non-empty string.''
         | Inr d \<Rightarrow> False"
    by code_simp
  then have b: "?b = Inl (Error ''title is required and must be a non-empty string.'')"
    by (cases ?b) simp_all
  from a b show ?thesis by (intro conjI)
qed

lemma set_trim: "set (trim s) \<subseteq> set s"
  by (auto simp: trim_def dest!: set_dropWhileD)

lemma toSlug_stripped:
  assumes "list_all (\<lambda>c. \<not> slugKeep c) (toLowerCase t)"
  shows "toSlug t = []"
proof -
  have "\<forall>c \<in> set (trim (toLowerCase t)). \<not> slugKeep c"
    using assms set_trim [of "toLowerCase t"] by (auto simp: list_all_iff)
  then have "filter slugKeep (trim (toLowerCase t)) = []"
    by (simp add: filter_empty_conv)
  then show ?thesis by (simp add: toSlug_def)
qed

lemma stripped_trim:
  assumes "list_all (\<lambda>c. \<not> slugKeep c) (toLowerCase t)"
  shows "list_all (\<lambda>c. \<not> slugKeep c) (toLowerCase (trim t))"
  using assms set_trim [of t] by (auto simp: list_all_iff toLowerCase_def)

lemma handleNormalize_slug:
  assumes "handleNormalize P doc = Inr d'" and "strs doc title = Some t"
  shows "slug d' = (if slugFalsy (slug doc) \<or> titleChanged doc
                    then Some (toSlug (trim t)) else slug doc)"
proof -
  from handleNormalize_Inr [OF assms(1)] obtain d1 where
    d1: "checkStringFields stringFields doc = Inr d1"
    and s: "slug d' = (if slugFalsy (slug doc) \<or> titleChanged doc
                       then map_option toSlug (strs d1 title) else slug doc)"
    by blast
  from checkStringFields_Inr [OF d1] assms(2) have "strs d1 title = Some (trim t)"
    by (simp add: set_stringFields)
  with s show ?thesis by simp
qed

lemma handleNormalize_title:
  assumes "handleNormalize P doc = Inr d'" and "strs doc title = Some t"
  shows "trim t \<noteq> []"
proof -
  from handleNormalize_Inr [OF assms(1)] obtain d1 where
    d1: "checkStringFields stringFields doc = Inr d1" by blast
  from checkStringFields_nonempty [OF d1 set_stringFields, of title] assms(2)
  show ?thesis by simp
qed

text \<open>
  C4, as amended. On every save that succeeds, the slug is recomputed from the trimmed
  title exactly when the slug is unset or the empty string, or the title changed in this
  write (which is assumed when the document has no \<open>isModified\<close> method); otherwise it
  is left as it was. The recomputed slug is \<open>toSlug\<close> of the trimmed title, which is the
  derivation of the specification: lowercase, strip the characters outside
  \<open>[a-z0-9\s-]\<close>, collapse runs of white space to one hyphen, collapse runs of hyphens to
  one. The title \<open>Node.js Meetup!!\<close> yields the slug \<open>nodejs-meetup\<close>.
\<close>

theorem slug_recomputed:
  assumes "handleNormalize P doc = Inr d'" and "strs doc title = Some t"
  shows "slug d' = (if slugFalsy (slug doc) \<or> titleChanged doc
                    then Some (toSlug (trim t)) else slug doc)
       \<and> toSlug (trim t) = toSlugSpec (trim t)
       \<and> toSlug ''Node.js Meetup!!'' = ''nodejs-meetup''"
proof -
  have "toSlug ''Node.js Meetup!!'' = ''nodejs-meetup''" by code_simp
  with handleNormalize_slug [OF assms] toSlug_trimmed [of t] show ?thesis by simp
qed

text \<open>
  The theorem at a new document titled \<open>Node.js Meetup!!\<close>, and at a stored document with
  a slug whose title did not change.
\<close>

theorem slug_recomputed_witness:
  "map_sum id slug (handleNormalize sampleParser (sampleEvent ''Node.js Meetup!!''))
     = Inr (Some ''nodejs-meetup'')
   \<and> map_sum id slug (handleNormalize sampleParser
        ((sampleEvent ''Renamed'')\<lparr>slug := Some ''old-slug'', isModifiedFn := Some (\<lambda>p. False)\<rparr>))
     = Inr (Some ''old-slug'')"
proof -
  let ?a = "sampleEvent ''Node.js Meetup!!''"
  let ?b = "(sampleEvent ''Renamed'')\<lparr>slug := Some ''old-slug'', isModifiedFn := Some (\<lambda>p. False)\<rparr>"
  have "\<not> isl (handleNormalize sampleParser ?a)" by code_simp
  then obtain a' where a': "handleNormalize sampleParser ?a = Inr a'"
    by (cases "handleNormalize sampleParser ?a") auto
  have ta: "strs ?a title = Some ''Node.js Meetup!!''" by (simp add: sampleEvent_def)
  have fa: "slugFalsy (slug ?a)" by (simp add: sampleEvent_def slugFalsy_def)
  have tr: "trim ''Node.js Meetup!!'' = ''Node.js Meetup!!''" by code_simp
  note th = slug_recomputed [OF a' ta]
  from th have "toSlug ''Node.js Meetup!!'' = ''nodejs-meetup''" by blast
  with th [THEN conjunct1] fa tr have "slug a' = Some ''nodejs-meetup''" by simp
  with a' have ra: "map_sum id slug (handleNormalize sampleParser ?a) = Inr (Some ''nodejs-meetup'')"
    by simp
  have "\<not> isl (handleNormalize sampleParser ?b)" by code_simp
  then obtain b' where b': "handleNormalize sampleParser ?b = Inr b'"
    by (cases "handleNormalize sampleParser ?b") auto
  have tb: "strs ?b title = Some ''Renamed''" by (simp add: sampleEvent_def)
  have fb: "\<not> slugFalsy (slug ?b)" "\<not> titleChanged ?b" "slug ?b = Some ''old-slug''"
    by (simp_all add: slugFalsy_def titleChanged_def)
  from slug_recomputed [OF b' tb, THEN conjunct1] fb have "slug b' = Some ''old-slug''" by simp
  with b' have rb: "map_sum id slug (handleNormalize sampleParser ?b) = Inr (Some ''old-slug'')"
    by simp
  from ra rb show ?thesis by simp
qed

text \<open>
  C4 as stated fails where the slug is set to the empty string: the title is unchanged and
  the slug is set, yet the save replaces it, since \<^verbatim>\<open>!this.slug\<close> holds of the empty
  string.
\<close>

theorem slug_empty_counterexample:
  "slug ((sampleEvent ''Hello'')\<lparr>slug := Some [], isModifiedFn := Some (\<lambda>p. False)\<rparr>) = Some []
   \<and> \<not> titleChanged ((sampleEvent ''Hello'')\<lparr>slug := Some [], isModifiedFn := Some (\<lambda>p. False)\<rparr>)
   \<and> map_sum id slug (handleNormalize sampleParser
        ((sampleEvent ''Hello'')\<lparr>slug := Some [], isModifiedFn := Some (\<lambda>p. False)\<rparr>))
      = Inr (Some ''hello'')"
proof -
  have "map_sum id slug (handleNormalize sampleParser
        ((sampleEvent ''Hello'')\<lparr>slug := Some [], isModifiedFn := Some (\<lambda>p. False)\<rparr>))
      = Inr (Some ''hello'')" by code_simp
  then show ?thesis by (simp add: titleChanged_def)
qed

text \<open>
  C10. A title that, once lowercased, has only characters outside \<open>[a-z0-9\s-]\<close> has the
  empty slug. When a save of a document with such a title succeeds and derives the slug,
  the title is not empty and the document is written with the empty slug; and a second
  such document collides with it on the unique index of \<open>slug\<close>.
\<close>

theorem empty_slug_reaches_store:
  "(list_all (\<lambda>c. \<not> slugKeep c) (toLowerCase t) \<longrightarrow> toSlug t = [])
   \<and> (handleNormalize P doc = Inr d' \<and> strs doc title = Some t
        \<and> list_all (\<lambda>c. \<not> slugKeep c) (toLowerCase t)
        \<and> (slugFalsy (slug doc) \<or> titleChanged doc)
      \<longrightarrow> t \<noteq> [] \<and> slug d' = Some []
          \<and> (handleNormalize Q doc2 = Inr d2' \<and> strs doc2 title = Some t2
               \<and> list_all (\<lambda>c. \<not> slugKeep c) (toLowerCase t2)
               \<and> (slugFalsy (slug doc2) \<or> titleChanged doc2)
             \<longrightarrow> uniqueSlugViolation [d'] d2'))"
proof -
  have one: "slug e' = Some [] \<and> u \<noteq> []"
    if "handleNormalize R e = Inr e'" "strs e title = Some u"
      "list_all (\<lambda>c. \<not> slugKeep c) (toLowerCase u)" "slugFalsy (slug e) \<or> titleChanged e"
    for R e e' u
  proof -
    have "toSlug (trim u) = []"
      using that(3) by (intro toSlug_stripped stripped_trim)
    moreover have "trim u \<noteq> []" using that(1,2) by (rule handleNormalize_title)
    then have "u \<noteq> []" by (auto simp: trim_def)
    ultimately show ?thesis using handleNormalize_slug [OF that(1,2)] that(4) by simp
  qed
  show ?thesis
    using one [of P doc d' t] one [of Q doc2 d2' t2] toSlug_stripped [of t]
    by (auto simp: uniqueSlugViolation_def)
qed

text \<open>
  The titles \<open>!!!\<close> and \<open>(?)\<close> pass the hook and both get the empty slug.
\<close>

theorem empty_slug_reaches_store_witness:
  "strs (sampleEvent ''!!!'') title = Some ''!!!''
   \<and> map_sum id slug (handleNormalize sampleParser (sampleEvent ''!!!'')) = Inr (Some [])
   \<and> map_sum id slug (handleNormalize sampleParser (sampleEvent ''(?)'')) = Inr (Some [])
   \<and> toSlug ''!!!'' = []"
proof -
  let ?a = "sampleEvent ''!!!''" and ?b = "sampleEvent ''(?)''"
  have "\<not> isl (handleNormalize sampleParser ?a)" by code_simp
  then obtain a' where a': "handleNormalize sampleParser ?a = Inr a'"
    by (cases "handleNormalize sampleParser ?a") auto
  have "\<not> isl (handleNormalize sampleParser ?b)" by code_simp
  then obtain b' where b': "handleNormalize sampleParser ?b = Inr b'"
    by (cases "handleNormalize sampleParser ?b") auto
  have ta: "strs ?a title = Some ''!!!''" and tb: "strs ?b title = Some ''(?)''"
    by (simp_all add: sampleEvent_def)
  have sa: "list_all (\<lambda>c. \<not> slugKeep c) (toLowerCase ''!!!'')"
    and sb: "list_all (\<lambda>c. \<not> slugKeep c) (toLowerCase ''(?)'')"
    by code_simp+
  have fa: "slugFalsy (slug ?a)" and fb: "slugFalsy (slug ?b)"
    by (simp_all add: sampleEvent_def slugFalsy_def)
  note th = empty_slug_reaches_store [of "''!!!''" sampleParser ?a a' sampleParser ?b b' "''(?)''"]
  from th a' ta sa fa have "slug a' = Some []" and "toSlug ''!!!'' = []" by blast+
  moreover from th a' ta sa fa b' tb sb fb have "uniqueSlugViolation [a'] b'" by blast
  then have "slug b' = slug a'" by (simp add: uniqueSlugViolation_def)
  ultimately show ?thesis using a' b' ta by simp
qed

section \<open>The Booking hook\<close>

lemma isValidEmail_split:
  assumes "isValidEmail v"
  obtains l d where "v = l @ CHR ''@'' # d" "l \<noteq> []" "list_all notSpaceAt l"
    "list_all notSpaceAt d" "CHR ''.'' \<in> set (butlast (tl d))"
proof -
  from assms obtain d where l: "takeWhile notSpaceAt v \<noteq> []"
    and d: "dropWhile notSpaceAt v = CHR ''@'' # d" "list_all notSpaceAt d"
      "CHR ''.'' \<in> set (butlast (tl d))"
    by (auto simp: isValidEmail_def Let_def split: list.splits)
  have "v = takeWhile notSpaceAt v @ dropWhile notSpaceAt v" by simp
  with d(1) have "v = takeWhile notSpaceAt v @ CHR ''@'' # d" by simp
  moreover have "list_all notSpaceAt (takeWhile notSpaceAt v)"
    by (auto simp: list_all_iff dest: set_takeWhileD)
  ultimately show ?thesis using l d(2,3) that by blast
qed


lemma emailShape_iff:
  "emailShape v \<longleftrightarrow>
     (\<exists>l d. v = l @ CHR ''@'' # d \<and> l \<noteq> [] \<and> CHR ''@'' \<notin> set l
        \<and> list_all (\<lambda>c. \<not> isWhiteSpace c) l \<and> list_all (\<lambda>c. \<not> isWhiteSpace c) d
        \<and> CHR ''.'' \<in> set d)"
proof
  let ?P = "\<lambda>c. c \<noteq> CHR ''@''"
  assume s: "emailShape v"
  then have ne: "dropWhile ?P v \<noteq> []" by (simp add: emailShape_def Let_def)
  then have hd: "hd (dropWhile ?P v) = CHR ''@''" using hd_dropWhile [of ?P v] by simp
  with ne have r: "dropWhile ?P v = CHR ''@'' # tl (dropWhile ?P v)"
    by (cases "dropWhile ?P v") auto
  have "v = takeWhile ?P v @ dropWhile ?P v" by simp
  with r have "v = takeWhile ?P v @ CHR ''@'' # tl (dropWhile ?P v)" by simp
  moreover have "CHR ''@'' \<notin> set (takeWhile ?P v)" by (auto dest: set_takeWhileD)
  ultimately show "\<exists>l d. v = l @ CHR ''@'' # d \<and> l \<noteq> [] \<and> CHR ''@'' \<notin> set l
        \<and> list_all (\<lambda>c. \<not> isWhiteSpace c) l \<and> list_all (\<lambda>c. \<not> isWhiteSpace c) d
        \<and> CHR ''.'' \<in> set d"
    using s by (auto simp: emailShape_def Let_def)
next
  let ?P = "\<lambda>c. c \<noteq> CHR ''@''"
  assume "\<exists>l d. v = l @ CHR ''@'' # d \<and> l \<noteq> [] \<and> CHR ''@'' \<notin> set l
        \<and> list_all (\<lambda>c. \<not> isWhiteSpace c) l \<and> list_all (\<lambda>c. \<not> isWhiteSpace c) d
        \<and> CHR ''.'' \<in> set d"
  then obtain l d where v: "v = l @ CHR ''@'' # d" and l: "l \<noteq> []" "CHR ''@'' \<notin> set l"
    "list_all (\<lambda>c. \<not> isWhiteSpace c) l" and d: "list_all (\<lambda>c. \<not> isWhiteSpace c) d"
    "CHR ''.'' \<in> set d"
    by blast
  from l(2) have la: "list_all ?P l" by (auto simp: list_all_iff)
  have t: "takeWhile ?P v = l" unfolding v using la by (rule takeWhile_all) simp
  have r: "dropWhile ?P v = CHR ''@'' # d" unfolding v using la by (rule dropWhile_all) simp
  from l d show "emailShape v" by (simp add: emailShape_def Let_def t r)
qed

text \<open>The pattern of the code, character by character.\<close>

lemma isValidEmail_iff:
  "isValidEmail v \<longleftrightarrow>
     (\<exists>l a b. v = l @ CHR ''@'' # a @ CHR ''.'' # b \<and> l \<noteq> [] \<and> a \<noteq> [] \<and> b \<noteq> []
        \<and> list_all notSpaceAt l \<and> list_all notSpaceAt a \<and> list_all notSpaceAt b)"
proof
  assume "isValidEmail v"
  then obtain l d where v: "v = l @ CHR ''@'' # d" and l: "l \<noteq> []" "list_all notSpaceAt l"
    and d: "list_all notSpaceAt d" "CHR ''.'' \<in> set (butlast (tl d))"
    by (rule isValidEmail_split)
  from d(2) obtain x d' where dd: "d = x # d'" by (cases d) auto
  with d(2) have "CHR ''.'' \<in> set (butlast d')" by simp
  then obtain a' b' where s: "butlast d' = a' @ CHR ''.'' # b'" by (meson split_list)
  then have ne: "d' \<noteq> []" by auto
  then have "d' = butlast d' @ [last d']" by simp
  with s have d': "d' = a' @ CHR ''.'' # (b' @ [last d'])" by simp
  with dd have "d = (x # a') @ CHR ''.'' # (b' @ [last d'])" by simp
  moreover from this d(1) have "list_all notSpaceAt (x # a')" "list_all notSpaceAt (b' @ [last d'])"
    by (simp_all add: list_all_iff)
  ultimately show "\<exists>l a b. v = l @ CHR ''@'' # a @ CHR ''.'' # b \<and> l \<noteq> [] \<and> a \<noteq> [] \<and> b \<noteq> []
        \<and> list_all notSpaceAt l \<and> list_all notSpaceAt a \<and> list_all notSpaceAt b"
    using v l by (metis append_is_Nil_conv list.distinct(1))
next
  assume "\<exists>l a b. v = l @ CHR ''@'' # a @ CHR ''.'' # b \<and> l \<noteq> [] \<and> a \<noteq> [] \<and> b \<noteq> []
        \<and> list_all notSpaceAt l \<and> list_all notSpaceAt a \<and> list_all notSpaceAt b"
  then obtain l a b where v: "v = l @ CHR ''@'' # (a @ CHR ''.'' # b)"
    and ne: "l \<noteq> []" "a \<noteq> []" "b \<noteq> []"
    and ok: "list_all notSpaceAt l" "list_all notSpaceAt a" "list_all notSpaceAt b"
    by auto
  have at: "\<not> notSpaceAt CHR ''@''" by (simp add: notSpaceAt_def)
  have dot: "notSpaceAt CHR ''.''" by (simp add: notSpaceAt_def isWhiteSpace_def code_def)
  have t: "takeWhile notSpaceAt v = l" unfolding v using ok(1) at by (rule takeWhile_all)
  have r: "dropWhile notSpaceAt v = CHR ''@'' # (a @ CHR ''.'' # b)"
    unfolding v using ok(1) at by (rule dropWhile_all)
  from ne(2) obtain x a' where a: "a = x # a'" by (cases a) auto
  from ne(3) have "butlast (a' @ CHR ''.'' # b) = a' @ CHR ''.'' # butlast b"
    by (simp add: butlast_append)
  then have "CHR ''.'' \<in> set (butlast (tl (a @ CHR ''.'' # b)))" using a by simp
  moreover have "list_all notSpaceAt (a @ CHR ''.'' # b)" using ok dot by simp
  ultimately show "isValidEmail v" using ne(1) by (simp add: isValidEmail_def Let_def t r)
qed

text \<open>The pattern of the code asks more than the shape of the specification.\<close>

lemma emailShape_not_sufficient:
  "emailShape ''a@.com'' \<and> \<not> isValidEmail ''a@.com''"
  "emailShape ''a@b@c.d'' \<and> \<not> isValidEmail ''a@b@c.d''"
  by code_simp+






lemma lookup_only_when_new_or_changed:
  "snd (validateBooking V X doc) \<noteq> [] \<Longrightarrow> isNew doc \<or> isModified doc ''eventId''"
  by (auto simp: validateBooking_def split: option.splits if_splits)

lemma no_lookup_after_failed_check:
  "email doc = None \<or> (email doc = Some e \<and> (trim e = [] \<or> \<not> isValidEmail e \<or> \<not> V (eventId doc)))
     \<Longrightarrow> snd (validateBooking V X doc) = []"
  by (auto simp: validateBooking_def)

text \<open>
  C8, as amended. The hook looks the event up exactly when its checks of the email and of
  the identifier have passed and the document is new or \<open>eventId\<close> was modified, and
  then once, for \<open>eventId\<close>; so a lookup happens only on a new document or a modified
  \<open>eventId\<close>. A lookup that finds no event fails the hook with
  \<open>Referenced event does not exist.\<close>, and one that finds the event lets it pass. On a
  stored document with \<open>eventId\<close> unmodified nothing is looked up and the outcome of the
  hook is the same whatever the store holds, so a dangling \<open>eventId\<close> does not fail it.
\<close>

theorem event_lookup_gated:
  "snd (validateBooking V X doc)
     = (if checksPassed V doc \<and> (isNew doc \<or> isModified doc ''eventId'')
        then [eventId doc] else [])
   \<and> (snd (validateBooking V X doc) \<noteq> [] \<longrightarrow> isNew doc \<or> isModified doc ''eventId'')
   \<and> (snd (validateBooking V X doc) \<noteq> [] \<and> \<not> X (eventId doc)
      \<longrightarrow> fst (validateBooking V X doc) = Inl (Error ''Referenced event does not exist.''))
   \<and> (snd (validateBooking V X doc) \<noteq> [] \<and> X (eventId doc)
      \<longrightarrow> fst (validateBooking V X doc) = Inr ())
   \<and> (\<not> isNew doc \<and> \<not> isModified doc ''eventId''
      \<longrightarrow> snd (validateBooking V X doc) = []
          \<and> validateBooking V X doc = validateBooking V Y doc)
   \<and> (checksPassed V doc \<and> \<not> isNew doc \<and> \<not> isModified doc ''eventId''
      \<longrightarrow> fst (validateBooking V X doc) = Inr ())"
proof -
  have a: "snd (validateBooking V X doc)
     = (if checksPassed V doc \<and> (isNew doc \<or> isModified doc ''eventId'')
        then [eventId doc] else [])"
    by (auto simp: validateBooking_def checksPassed_def split: option.splits)
  have b: "snd (validateBooking V X doc) \<noteq> [] \<longrightarrow> isNew doc \<or> isModified doc ''eventId''"
    by (simp add: a)
  have c: "snd (validateBooking V X doc) \<noteq> [] \<and> \<not> X (eventId doc)
      \<longrightarrow> fst (validateBooking V X doc) = Inl (Error ''Referenced event does not exist.'')"
    by (auto simp: validateBooking_def split: option.splits if_splits)
  have d: "snd (validateBooking V X doc) \<noteq> [] \<and> X (eventId doc)
      \<longrightarrow> fst (validateBooking V X doc) = Inr ()"
    by (auto simp: validateBooking_def split: option.splits if_splits)
  have e: "\<not> isNew doc \<and> \<not> isModified doc ''eventId''
      \<longrightarrow> snd (validateBooking V X doc) = []
          \<and> validateBooking V X doc = validateBooking V Y doc"
    by (auto simp: validateBooking_def split: option.splits)
  have f: "checksPassed V doc \<and> \<not> isNew doc \<and> \<not> isModified doc ''eventId''
      \<longrightarrow> fst (validateBooking V X doc) = Inr ()"
    by (auto simp: validateBooking_def checksPassed_def split: option.splits)
  from a b c d e f show ?thesis by (intro conjI)
qed

text \<open>
  The theorem at a stored document whose event does not exist, checked with nothing
  modified, at the same document when it is new, and at the new document when the event
  exists.
\<close>

theorem event_lookup_gated_witness:
  "validateBooking (\<lambda>i. True) (\<lambda>i. False) sampleBooking = (Inr (), [])
   \<and> validateBooking (\<lambda>i. True) (\<lambda>i. False) (sampleBooking\<lparr>isNew := True\<rparr>)
       = (Inl (Error ''Referenced event does not exist.''), [7])
   \<and> validateBooking (\<lambda>i. True) (\<lambda>i. i = 7) (sampleBooking\<lparr>isNew := True\<rparr>) = (Inr (), [7])"
proof -
  let ?V = "\<lambda>i::nat. True" and ?X = "\<lambda>i::nat. False" and ?Y = "\<lambda>i::nat. i = 7"
  let ?n = "sampleBooking\<lparr>isNew := True\<rparr>"
  have cp: "checksPassed ?V sampleBooking" by code_simp
  have cp': "checksPassed ?V ?n" by code_simp
  have old: "\<not> isNew sampleBooking \<and> \<not> isModified sampleBooking ''eventId''"
    by (simp add: sampleBooking_def)
  have new: "isNew ?n" by simp
  have id: "eventId ?n = 7" by (simp add: sampleBooking_def)
  note s = event_lookup_gated [of ?V ?X sampleBooking]
  note n = event_lookup_gated [of ?V ?X ?n]
  note y = event_lookup_gated [of ?V ?Y ?n]
  have s1: "snd (validateBooking ?V ?X sampleBooking) = []"
    using s [THEN conjunct1] old by simp
  from cp old have "checksPassed ?V sampleBooking \<and> \<not> isNew sampleBooking
      \<and> \<not> isModified sampleBooking ''eventId''"
    by (intro conjI) simp_all
  then have s2: "fst (validateBooking ?V ?X sampleBooking) = Inr ()"
    by (rule s [THEN conjunct2, THEN conjunct2, THEN conjunct2, THEN conjunct2,
          THEN conjunct2, THEN mp])
  have n1: "snd (validateBooking ?V ?X ?n) = [7]"
    using n [THEN conjunct1] cp' new id by simp
  then have "snd (validateBooking ?V ?X ?n) \<noteq> [] \<and> \<not> ?X (eventId ?n)" by simp
  then have n2: "fst (validateBooking ?V ?X ?n) = Inl (Error ''Referenced event does not exist.'')"
    by (rule n [THEN conjunct2, THEN conjunct2, THEN conjunct1, THEN mp])
  have y1: "snd (validateBooking ?V ?Y ?n) = [7]"
    using y [THEN conjunct1] cp' new id by simp
  with id have "snd (validateBooking ?V ?Y ?n) \<noteq> [] \<and> ?Y (eventId ?n)" by simp
  then have y2: "fst (validateBooking ?V ?Y ?n) = Inr ()"
    by (rule y [THEN conjunct2, THEN conjunct2, THEN conjunct2, THEN conjunct1, THEN mp])
  from s1 s2 n1 n2 y1 y2 show ?thesis by (simp add: prod_eq_iff)
qed

text \<open>
  C8 as stated fails: a new document with a malformed email is rejected by the check of
  the email, and its event is never looked up.
\<close>

theorem lookup_skipped_counterexample:
  "isNew (sampleBooking\<lparr>isNew := True, email := Some ''not-an-email''\<rparr>)
   \<and> validateBooking (\<lambda>i. True) (\<lambda>i. True)
        (sampleBooking\<lparr>isNew := True, email := Some ''not-an-email''\<rparr>)
     = (Inl (Error ''Invalid email format.''), [])"
  by code_simp

section \<open>The connection cache on entry\<close>

text \<open>
  C9, as amended. A call made while the connection string is absent (unset or empty)
  throws the missing-configuration error and leaves the cache as it is, whatever the
  cache holds; a call made while it is present and a live connection is cached returns
  that connection at once and leaves the cache as it is.
\<close>

theorem connect_checks_uri_first:
  "(uriFalsy uri
      \<longrightarrow> connectToDatabase uri connect cached
          = (Throws (Error ''MONGODB_URI environment variable is not set.''), cached))
   \<and> (\<not> uriFalsy uri \<and> conn cached = Some c
      \<longrightarrow> connectToDatabase uri connect cached = (Returns c, cached))"
  by (simp add: connectToDatabase_def)

text \<open>
  The theorem at a configured call with a cached connection, and at a call with an empty
  connection string while an establishment is in flight.
\<close>

theorem connect_checks_uri_first_witness:
  "connectToDatabase (Some ''mongodb://localhost/dev'') (\<lambda>u. 0 :: nat)
       \<lparr>conn = Some (1 :: nat), promise = None\<rparr>
     = (Returns 1, \<lparr>conn = Some 1, promise = None\<rparr>)
   \<and> connectToDatabase (Some '''') (\<lambda>u. 0 :: nat) \<lparr>conn = None :: nat option, promise = Some 5\<rparr>
     = (Throws (Error ''MONGODB_URI environment variable is not set.''),
        \<lparr>conn = None, promise = Some 5\<rparr>)"
proof -
  have "\<not> uriFalsy (Some ''mongodb://localhost/dev'')" and "uriFalsy (Some '''')"
    by (simp_all add: uriFalsy_def)
  then show ?thesis
    using connect_checks_uri_first [of "Some ''mongodb://localhost/dev''" "\<lambda>u. 0 :: nat"
        "\<lparr>conn = Some (1 :: nat), promise = None\<rparr>" 1]
      connect_checks_uri_first [of "Some ''''" "\<lambda>u. 0 :: nat"
        "\<lparr>conn = None :: nat option, promise = Some 5\<rparr>"]
    by simp
qed

text \<open>
  C9 as stated fails: with a live connection cached and the connection string unset, the
  call throws the missing-configuration error instead of returning the connection.
\<close>

theorem connect_cached_counterexample:
  "connectToDatabase None (\<lambda>u. 0 :: nat) \<lparr>conn = Some (1 :: nat), promise = None\<rparr>
     = (Throws (Error ''MONGODB_URI environment variable is not set.''),
        \<lparr>conn = Some 1, promise = None\<rparr>)"
  by (simp add: connectToDatabase_def uriFalsy_def)

end
